theory Spec2Isabelle
  imports Main "HOL-Library.Sublist" "HOL-Library.Multiset"
begin

unbundle bit_operations_syntax

section \<open>Text primitives of the Python source\<close>

text \<open>
  A Python \<open>str\<close> is modelled as a \<open>string\<close>, that is a list of 8-bit characters: the
  text is restricted to code points below 256, and every character class below is
  Python's class cut down to that range.
\<close>

definition is_space :: "char \<Rightarrow> bool" where
  \<comment> \<open>\<open>str.isspace\<close> on one character: TAB..CR, FS..US, SPACE, NEL, NBSP\<close>
  "is_space c =
     (let n = (of_char c :: nat)
      in (9 \<le> n \<and> n \<le> 13) \<or> (28 \<le> n \<and> n \<le> 32) \<or> n = 133 \<or> n = 160)"

definition lstrip :: "string \<Rightarrow> string" where
  "lstrip s = dropWhile is_space s"

definition strip :: "string \<Rightarrow> string" where
  \<comment> \<open>\<open>str.strip()\<close>: leading and trailing whitespace removed\<close>
  "strip s = rev (dropWhile is_space (rev (dropWhile is_space s)))"

definition lower_char :: "char \<Rightarrow> char" where
  \<comment> \<open>\<open>str.lower\<close> on one character: A..Z and the Latin-1 capitals (not the
      multiplication sign) move up by 32\<close>
  "lower_char c =
     (let n = (of_char c :: nat)
      in if (65 \<le> n \<and> n \<le> 90) \<or> (192 \<le> n \<and> n \<le> 222 \<and> n \<noteq> 215)
         then char_of (n + 32) else c)"

definition lower :: "string \<Rightarrow> string" where
  "lower s = map lower_char s"

definition upper_char :: "char \<Rightarrow> char" where
  \<comment> \<open>\<open>str.upper\<close> on one character, for the ASCII letters; the source applies
      it only to an \<open>f\<close> followed by digits\<close>
  "upper_char c =
     (let n = (of_char c :: nat)
      in if 97 \<le> n \<and> n \<le> 122 then char_of (n - 32) else c)"

definition upper :: "string \<Rightarrow> string" where
  "upper s = map upper_char s"

definition is_digit :: "char \<Rightarrow> bool" where
  \<comment> \<open>\<open>str.isdigit\<close> on one character: 0..9 and the superscripts 1, 2, 3\<close>
  "is_digit c =
     (let n = (of_char c :: nat)
      in (48 \<le> n \<and> n \<le> 57) \<or> n = 178 \<or> n = 179 \<or> n = 185)"

definition isdigit :: "string \<Rightarrow> bool" where
  "isdigit s = (s \<noteq> [] \<and> list_all is_digit s)"

fun split_on :: "char \<Rightarrow> string \<Rightarrow> string list" where
  \<comment> \<open>\<open>s.split(sep)\<close> for a one-character separator: never an empty list\<close>
  "split_on sep [] = [[]]"
| "split_on sep (c # cs) =
     (if c = sep then [] # split_on sep cs
      else (case split_on sep cs of
              [] \<Rightarrow> [[c]]
            | w # ws \<Rightarrow> (c # w) # ws))"

definition is_linebreak :: "char \<Rightarrow> bool" where
  \<comment> \<open>the line boundaries of \<open>str.splitlines\<close>: LF, VT, FF, CR, FS, GS, RS, NEL\<close>
  "is_linebreak c =
     (let n = (of_char c :: nat)
      in (10 \<le> n \<and> n \<le> 13) \<or> (28 \<le> n \<and> n \<le> 30) \<or> n = 133)"

fun splitlines_from :: "string \<Rightarrow> string \<Rightarrow> string list" where
  \<comment> \<open>the first argument is the line read so far\<close>
  "splitlines_from cur [] = (if cur = [] then [] else [cur])"
| "splitlines_from cur [c] =
     (if is_linebreak c then [cur] else [cur @ [c]])"
| "splitlines_from cur (c # d # cs) =
     (if c = CHR 0x0D \<and> d = CHR 0x0A then cur # splitlines_from [] cs
      else if is_linebreak c then cur # splitlines_from [] (d # cs)
      else splitlines_from (cur @ [c]) (d # cs))"

definition splitlines :: "string \<Rightarrow> string list" where
  \<comment> \<open>\<open>str.splitlines()\<close>: CR LF is one boundary, no empty last line\<close>
  "splitlines s = splitlines_from [] s"

fun join :: "string \<Rightarrow> string list \<Rightarrow> string" where
  \<comment> \<open>\<open>sep.join(xs)\<close>\<close>
  "join sep [] = []"
| "join sep [x] = x"
| "join sep (x # y # ys) = x @ sep @ join sep (y # ys)"

subsection \<open>Exceptions\<close>

text \<open>
  The Python exceptions of the model, all of them subclasses of \<open>Exception\<close>. An
  operation that can raise returns \<open>Inl\<close> of the exception or \<open>Inr\<close> of its value.
\<close>

datatype exn = FileNotFoundError | IndexError | BadAccess | ConnectionClosedError | RuntimeError
  | OSError | TclError

section \<open>GlobalHotkeyManager\<close>

subsection \<open>The chord parser\<close>

fun add_modifier :: "string \<Rightarrow> string set option \<Rightarrow> string set option" where
  \<comment> \<open>one round of the loop over \<open>parts[:-1]\<close>; None is the early \<open>return None\<close>\<close>
  "add_modifier m None = None"
| "add_modifier m (Some mods) =
     (let l = lower m
      in if l = ''ctrl'' \<or> l = ''control'' then Some (insert ''control'' mods)
         else if l = ''alt'' then Some (insert ''alt'' mods)
         else if l = ''shift'' then Some (insert ''shift'' mods)
         else if l = ''super'' \<or> l = ''win'' \<or> l = ''mod4'' then Some (insert ''super'' mods)
         else None)"

definition hotkey_tokens :: "string \<Rightarrow> string list" where
  \<comment> \<open>\<open>[p.strip() for p in raw.split("+") if p.strip()]\<close>\<close>
  "hotkey_tokens raw = filter (\<lambda>p. p \<noteq> []) (map strip (split_on CHR ''+'' raw))"

definition hotkey_to_parts :: "string \<Rightarrow> (string set \<times> string) option" where
  "hotkey_to_parts hotkey_text =
     (let raw = strip hotkey_text
      in if raw = [] then None
         else let parts = hotkey_tokens raw
              in if parts = [] then None
                 else let key_name = lower (last parts)
                      in (case foldl (\<lambda>acc m. add_modifier m acc) (Some {}) (butlast parts) of
                            None \<Rightarrow> None
                          | Some mods \<Rightarrow> Some (mods, key_name)))"

subsection \<open>The display-server backend\<close>

text \<open>
  The X library is not part of the repository. Its constants are those of the X11
  protocol; its calls are parameters of the model. A call either returns or raises a
  Python exception, and the model keeps that apart from what the display server answers:
  when another client already holds a grab, the server answers the \<open>GrabKey\<close> request with
  the error BadAccess, and python-xlib hands an error of a request without reply to the
  error handler of the request (\<open>onerror\<close>, which the source does not pass) or else of the
  display, whose default prints it; nothing is raised in the caller. The two keysym lookups
  are table lookups that return 0 for an unknown name, and joining a started thread from
  another thread returns.
\<close>

definition ShiftMask :: nat where "ShiftMask = 1"
definition LockMask :: nat where "LockMask = 2"
definition ControlMask :: nat where "ControlMask = 4"
definition Mod1Mask :: nat where "Mod1Mask = 8"
definition Mod2Mask :: nat where "Mod2Mask = 16"
definition Mod4Mask :: nat where "Mod4Mask = 64"

datatype xreq = GrabKey nat nat | UngrabKey nat nat | Flush | CloseDisplay

record xbackend =
  xlib_available :: bool
  open_display :: "exn + nat"  \<comment> \<open>\<open>xdisplay.Display()\<close>: raises, or returns the connection\<close>
  screen_root :: "exn + nat"  \<comment> \<open>\<open>display.screen().root\<close>\<close>
  new_thread :: nat  \<comment> \<open>the object \<open>threading.Thread(...)\<close> constructs\<close>
  thread_start_raises :: "exn option"  \<comment> \<open>\<open>thread.start()\<close>\<close>
  string_to_keysym :: "string \<Rightarrow> nat"  \<comment> \<open>\<open>XK.string_to_keysym\<close>, 0 is NoSymbol\<close>
  display_keysym_to_keycode :: "nat \<Rightarrow> nat"  \<comment> \<open>\<open>display.keysym_to_keycode\<close>\<close>
  held_elsewhere :: "nat \<Rightarrow> nat \<Rightarrow> bool"
    \<comment> \<open>another client holds the grab of this keycode and mask: the server refuses it\<close>
  grab_key_raises :: "nat \<Rightarrow> nat \<Rightarrow> exn option"  \<comment> \<open>\<open>root.grab_key(keycode, mask, ...)\<close>\<close>
  sync_raises :: "nat \<Rightarrow> nat \<Rightarrow> exn option"  \<comment> \<open>the \<open>display.sync()\<close> after that grab\<close>
  ungrab_key_raises :: "nat \<Rightarrow> nat \<Rightarrow> exn option"  \<comment> \<open>\<open>root.ungrab_key(keycode, mask)\<close>\<close>
  flush_raises :: "exn option"  \<comment> \<open>\<open>display.flush()\<close>\<close>
  close_raises :: "exn option"  \<comment> \<open>\<open>display.close()\<close>\<close>

record 'a hotkey_manager =
  display :: "nat option"
  root :: "nat option"
  running :: bool
  thread :: "nat option"
  bindings :: "(nat \<times> nat) \<rightharpoonup> 'a"
  registered :: "(nat \<times> nat) list"
  sent :: "xreq list"
    \<comment> \<open>not a field of the class: the grab, ungrab, flush and close requests made so far\<close>
  refused :: "(nat \<times> nat) list"
    \<comment> \<open>not a field of the class: the grabs for which the server answered BadAccess\<close>

definition init_hotkey_manager :: "'a hotkey_manager" where
  "init_hotkey_manager =
     \<lparr>display = None, root = None, running = False, thread = None,
      bindings = Map.empty, registered = [], sent = [], refused = []\<rparr>"

definition raise_or_return :: "exn option \<Rightarrow> 's \<Rightarrow> (exn + unit) \<times> 's" where
  \<comment> \<open>the outcome of a backend call that returns nothing\<close>
  "raise_or_return outcome s = (case outcome of Some e \<Rightarrow> (Inl e, s) | None \<Rightarrow> (Inr (), s))"

definition try_except ::
  "('s \<Rightarrow> (exn + 'r) \<times> 's) \<Rightarrow> ('s \<Rightarrow> (exn + 'r) \<times> 's) \<Rightarrow> 's \<Rightarrow> (exn + 'r) \<times> 's" where
  \<comment> \<open>\<open>try: body  except Exception: handler\<close>; every exception of the model is an
      \<open>Exception\<close>\<close>
  "try_except body handler s =
     (case body s of (Inl e, s') \<Rightarrow> handler s' | (Inr v, s') \<Rightarrow> (Inr v, s'))"

definition swallow :: "('s \<Rightarrow> (exn + unit) \<times> 's) \<Rightarrow> 's \<Rightarrow> 's" where
  \<comment> \<open>\<open>try: call  except Exception: pass\<close>\<close>
  "swallow call s = snd (try_except call (\<lambda>s. (Inr (), s)) s)"

definition modifier_mask :: "string set \<Rightarrow> nat" where
  "modifier_mask mods =
     (let m = 0;
          m = (if ''control'' \<in> mods then m OR ControlMask else m);
          m = (if ''alt'' \<in> mods then m OR Mod1Mask else m);
          m = (if ''shift'' \<in> mods then m OR ShiftMask else m);
          m = (if ''super'' \<in> mods then m OR Mod4Mask else m)
      in m)"

definition special :: "string \<Rightarrow> string" where
  \<comment> \<open>\<open>special.get(key_name, key_name)\<close>\<close>
  "special key_name =
     (if key_name = [CHR 0x5C] then ''backslash''
      else if key_name = ''/'' then ''slash''
      else if key_name = ''-'' then ''minus''
      else if key_name = ''='' then ''equal''
      else if key_name = ''`'' then ''grave''
      else key_name)"

definition keysym_to_keycode :: "xbackend \<Rightarrow> string \<Rightarrow> nat option" where
  "keysym_to_keycode x key_name0 =
     (let key_name = special key_name0;
          key_name = (if prefix ''f'' key_name \<and> isdigit (drop 1 key_name)
                      then upper key_name else key_name);
          keysym = string_to_keysym x key_name
      in if keysym = 0 then None
         else let keycode = display_keysym_to_keycode x keysym
              in if keycode = 0 then None else Some keycode)"

definition start_body :: "xbackend \<Rightarrow> 'a hotkey_manager \<Rightarrow> (exn + bool) \<times> 'a hotkey_manager" where
  \<comment> \<open>the \<open>try\<close> block of \<open>start\<close>\<close>
  "start_body x hk =
     (case open_display x of
        Inl e \<Rightarrow> (Inl e, hk)
      | Inr d \<Rightarrow>
          (let hk = hk\<lparr>display := Some d\<rparr>
           in case screen_root x of
                Inl e \<Rightarrow> (Inl e, hk)
              | Inr r \<Rightarrow>
                  (let hk = hk\<lparr>root := Some r, running := True, thread := Some (new_thread x)\<rparr>
                   in case thread_start_raises x of
                        Some e \<Rightarrow> (Inl e, hk)
                      | None \<Rightarrow> (Inr True, hk))))"

definition start :: "xbackend \<Rightarrow> 'a hotkey_manager \<Rightarrow> (exn + bool) \<times> 'a hotkey_manager" where
  "start x hk =
     (if \<not> xlib_available x \<or> running hk then (Inr False, hk)
      else try_except (start_body x)
             (\<lambda>hk. (Inr False, hk\<lparr>display := None, root := None, running := False\<rparr>)) hk)"

definition ungrab_key :: "xbackend \<Rightarrow> nat \<times> nat \<Rightarrow> 'a hotkey_manager \<Rightarrow> (exn + unit) \<times> 'a hotkey_manager" where
  "ungrab_key x km hk =
     raise_or_return (ungrab_key_raises x (fst km) (snd km))
       (hk\<lparr>sent := sent hk @ [UngrabKey (fst km) (snd km)]\<rparr>)"

definition flush :: "xbackend \<Rightarrow> 'a hotkey_manager \<Rightarrow> (exn + unit) \<times> 'a hotkey_manager" where
  "flush x hk = raise_or_return (flush_raises x) (hk\<lparr>sent := sent hk @ [Flush]\<rparr>)"

definition close_display :: "xbackend \<Rightarrow> 'a hotkey_manager \<Rightarrow> (exn + unit) \<times> 'a hotkey_manager" where
  "close_display x hk = raise_or_return (close_raises x) (hk\<lparr>sent := sent hk @ [CloseDisplay]\<rparr>)"

definition unregister_all :: "xbackend \<Rightarrow> 'a hotkey_manager \<Rightarrow> 'a hotkey_manager" where
  "unregister_all x hk =
     (if display hk = None \<or> root hk = None then hk
      else let hk = foldl (\<lambda>hk km. swallow (ungrab_key x km) hk) hk (registered hk);
               hk = hk\<lparr>registered := []\<rparr>
           in swallow (flush x) hk)"

definition stop :: "xbackend \<Rightarrow> 'a hotkey_manager \<Rightarrow> (exn + unit) \<times> 'a hotkey_manager" where
  "stop x hk =
     (if \<not> running hk then (Inr (), hk)
      else let hk = hk\<lparr>running := False\<rparr>;
               hk = unregister_all x hk;
               hk = (if display hk \<noteq> None then swallow (close_display x) hk else hk)
           in (Inr (), hk\<lparr>display := None, root := None\<rparr>))"

definition lock_variants :: "nat list" where
  \<comment> \<open>\<open>(0, X.LockMask, X.Mod2Mask, X.LockMask | X.Mod2Mask)\<close>\<close>
  "lock_variants = [0, LockMask, Mod2Mask, LockMask OR Mod2Mask]"

definition grab_key :: "xbackend \<Rightarrow> nat \<Rightarrow> nat \<Rightarrow> 'a hotkey_manager \<Rightarrow> (exn + unit) \<times> 'a hotkey_manager" where
  "grab_key x keycode m hk =
     raise_or_return (grab_key_raises x keycode m) (hk\<lparr>sent := sent hk @ [GrabKey keycode m]\<rparr>)"

definition sync :: "xbackend \<Rightarrow> nat \<Rightarrow> nat \<Rightarrow> 'a hotkey_manager \<Rightarrow> (exn + unit) \<times> 'a hotkey_manager" where
  \<comment> \<open>the round trip after a grab: a refusal of the grab arrives here and goes to the error
      handler, the call returns all the same\<close>
  "sync x keycode m hk =
     (case sync_raises x keycode m of
        Some e \<Rightarrow> (Inl e, hk)
      | None \<Rightarrow>
          (Inr (), if held_elsewhere x keycode m
                   then hk\<lparr>refused := refused hk @ [(keycode, m)]\<rparr> else hk))"

definition grab_body :: "xbackend \<Rightarrow> nat \<Rightarrow> nat \<Rightarrow> 'a hotkey_manager \<Rightarrow> (exn + bool) \<times> 'a hotkey_manager" where
  \<comment> \<open>the \<open>try\<close> block of the loop over the four extra masks; its value is the new \<open>any_grab\<close>\<close>
  "grab_body x keycode m hk =
     (case grab_key x keycode m hk of
        (Inl e, hk) \<Rightarrow> (Inl e, hk)
      | (Inr u, hk) \<Rightarrow>
          (case sync x keycode m hk of
             (Inl e, hk) \<Rightarrow> (Inl e, hk)
           | (Inr u, hk) \<Rightarrow> (Inr True, hk\<lparr>registered := registered hk @ [(keycode, m)]\<rparr>)))"

definition grab_variant ::
  "xbackend \<Rightarrow> nat \<Rightarrow> nat \<Rightarrow> 'a hotkey_manager \<times> bool \<Rightarrow> nat \<Rightarrow> 'a hotkey_manager \<times> bool" where
  \<comment> \<open>one round of the loop over the four extra masks: both \<open>except\<close> branches \<open>continue\<close>\<close>
  "grab_variant x keycode base_mask st extra =
     (let hk = fst st; any_grab = snd st;
          m = base_mask OR extra
      in case try_except (grab_body x keycode m) (\<lambda>hk. (Inr any_grab, hk)) hk of
           (Inl e, hk) \<Rightarrow> (hk, any_grab)
         | (Inr any_grab, hk) \<Rightarrow> (hk, any_grab))"

definition register_one ::
  "xbackend \<Rightarrow> 'a hotkey_manager \<times> string list \<Rightarrow> 'a \<times> string \<Rightarrow> 'a hotkey_manager \<times> string list" where
  \<comment> \<open>one round of the loop over \<open>hotkey_actions\<close>\<close>
  "register_one x st entry =
     (let hk = fst st; conflicts = snd st; action = fst entry; hotkey = snd entry
      in case hotkey_to_parts hotkey of
           None \<Rightarrow> (hk, conflicts)
         | Some (mods, key_name) \<Rightarrow>
             (case keysym_to_keycode x key_name of
                None \<Rightarrow> (hk, conflicts @ [hotkey])
              | Some keycode \<Rightarrow>
                  (let base_mask = modifier_mask mods;
                       (hk, any_grab) =
                          foldl (grab_variant x keycode base_mask) (hk, False) lock_variants
                   in if any_grab
                      then (hk\<lparr>bindings := (bindings hk)((keycode, base_mask) \<mapsto> action)\<rparr>,
                            conflicts)
                      else (hk, conflicts @ [hotkey]))))"

definition register ::
  "xbackend \<Rightarrow> 'a hotkey_manager \<Rightarrow> ('a \<times> string) list \<Rightarrow> (exn + string list) \<times> 'a hotkey_manager" where
  "register x hk hotkey_actions =
     (if \<not> running hk \<or> display hk = None \<or> root hk = None then (Inr [], hk)
      else let hk = unregister_all x hk;
               hk = hk\<lparr>bindings := Map.empty\<rparr>;
               (hk, conflicts) = foldl (register_one x) (hk, []) hotkey_actions
           in (Inr conflicts, swallow (flush x) hk))"

subsection \<open>What one entry of \<open>register\<close> amounts to\<close>

text \<open>
  The body of the loop of \<open>register\<close>, read off entry by entry: the table key of a chord
  that parses and resolves, the masks it is grabbed under, the grab requests it sends, the
  grabs it records, the refusals the server answers, whether it ends in the conflict list,
  and its write to the table.
\<close>

definition grab_fails :: "xbackend \<Rightarrow> nat \<Rightarrow> nat \<Rightarrow> bool" where
  \<comment> \<open>\<open>grab_key\<close> or the \<open>sync\<close> after it raises\<close>
  "grab_fails x keycode m = (grab_key_raises x keycode m \<noteq> None \<or> sync_raises x keycode m \<noteq> None)"

definition chord_key :: "xbackend \<Rightarrow> string \<Rightarrow> (nat \<times> nat) option" where
  "chord_key x hotkey =
     (case hotkey_to_parts hotkey of
        None \<Rightarrow> None
      | Some (mods, key_name) \<Rightarrow>
          (case keysym_to_keycode x key_name of
             None \<Rightarrow> None
           | Some keycode \<Rightarrow> Some (keycode, modifier_mask mods)))"

definition grab_masks :: "nat \<Rightarrow> nat list" where
  "grab_masks base_mask = map (\<lambda>extra. base_mask OR extra) lock_variants"

definition entry_grabs :: "xbackend \<Rightarrow> string \<Rightarrow> xreq list" where
  "entry_grabs x hotkey =
     (case chord_key x hotkey of
        None \<Rightarrow> []
      | Some (keycode, base_mask) \<Rightarrow> map (GrabKey keycode) (grab_masks base_mask))"

definition any_granted :: "xbackend \<Rightarrow> nat \<times> nat \<Rightarrow> bool" where
  \<comment> \<open>some variant went through without an exception: \<open>any_grab\<close> after the four rounds\<close>
  "any_granted x k = (\<exists>m \<in> set (grab_masks (snd k)). \<not> grab_fails x (fst k) m)"

definition is_conflict :: "xbackend \<Rightarrow> string \<Rightarrow> bool" where
  "is_conflict x hotkey =
     (hotkey_to_parts hotkey \<noteq> None \<and>
      (case chord_key x hotkey of None \<Rightarrow> True | Some k \<Rightarrow> \<not> any_granted x k))"

definition granted_pairs :: "xbackend \<Rightarrow> string \<Rightarrow> (nat \<times> nat) list" where
  "granted_pairs x hotkey =
     (case chord_key x hotkey of
        None \<Rightarrow> []
      | Some (keycode, base_mask) \<Rightarrow>
          map (Pair keycode) (filter (\<lambda>m. \<not> grab_fails x keycode m) (grab_masks base_mask)))"

definition refused_pairs :: "xbackend \<Rightarrow> string \<Rightarrow> (nat \<times> nat) list" where
  "refused_pairs x hotkey =
     (case chord_key x hotkey of
        None \<Rightarrow> []
      | Some (keycode, base_mask) \<Rightarrow>
          map (Pair keycode)
            (filter (\<lambda>m. \<not> grab_fails x keycode m \<and> held_elsewhere x keycode m)
               (grab_masks base_mask)))"

definition enter_binding ::
  "xbackend \<Rightarrow> ((nat \<times> nat) \<rightharpoonup> 'a) \<Rightarrow> 'a \<times> string \<Rightarrow> ((nat \<times> nat) \<rightharpoonup> 'a)" where
  "enter_binding x tab entry =
     (case chord_key x (snd entry) of
        None \<Rightarrow> tab
      | Some k \<Rightarrow> if any_granted x k then tab(k \<mapsto> fst entry) else tab)"

subsection \<open>A display server to run the manager against\<close>

definition demo_backend :: xbackend where
  \<comment> \<open>the keys 1 and 2 exist; another client holds every grab of the key 2; no call raises\<close>
  "demo_backend =
     \<lparr>xlib_available = True, open_display = Inr 1, screen_root = Inr 2, new_thread = 3,
      thread_start_raises = None,
      string_to_keysym = (\<lambda>s. if s = ''1'' then 49 else if s = ''2'' then 50 else 0),
      display_keysym_to_keycode = (\<lambda>k. if k = 49 then 10 else if k = 50 then 11 else 0),
      held_elsewhere = (\<lambda>keycode m. keycode = 11),
      grab_key_raises = (\<lambda>keycode m. None),
      sync_raises = (\<lambda>keycode m. None),
      ungrab_key_raises = (\<lambda>keycode m. None),
      flush_raises = None,
      close_raises = None\<rparr>"

definition no_backend :: xbackend where
  \<comment> \<open>the X library imports, the display does not open\<close>
  "no_backend = demo_backend\<lparr>open_display := Inl ConnectionClosedError\<rparr>"

definition lost_backend :: xbackend where
  \<comment> \<open>the connection is lost: every request raises\<close>
  "lost_backend =
     demo_backend\<lparr>grab_key_raises := (\<lambda>keycode m. Some ConnectionClosedError),
                  sync_raises := (\<lambda>keycode m. Some ConnectionClosedError),
                  ungrab_key_raises := (\<lambda>keycode m. Some ConnectionClosedError),
                  flush_raises := Some ConnectionClosedError,
                  close_raises := Some ConnectionClosedError,
                  thread_start_raises := Some RuntimeError\<rparr>"

definition demo_manager :: "nat hotkey_manager" where
  \<comment> \<open>a manager after a successful \<open>start\<close> that holds one grab\<close>
  "demo_manager =
     init_hotkey_manager\<lparr>display := Some 1, root := Some 2, running := True, thread := Some 3,
                         bindings := [(10, 8) \<mapsto> 0], registered := [(10, 8)]\<rparr>"

subsection \<open>The chord serializer and the modifier synonyms\<close>

text \<open>
  Modelled from the spec: the serializer of the chord codec. The source has no function
  that turns a parsed chord back into text; the spec describes it as "simply the reverse
  (join modifiers in canonical order + base key with \<open>+\<close>)". The canonical order is the
  order of the parser's branches, and each modifier is written as in the spec's examples.
\<close>

definition serialize_chord :: "string set \<times> string \<Rightarrow> string" where
  \<comment> \<open>Modelled from the spec: join modifiers in canonical order and the base key with \<open>+\<close>\<close>
  "serialize_chord chord =
     join ''+''
       ((if ''control'' \<in> fst chord then [''Ctrl''] else []) @
        (if ''alt'' \<in> fst chord then [''Alt''] else []) @
        (if ''shift'' \<in> fst chord then [''Shift''] else []) @
        (if ''super'' \<in> fst chord then [''Super''] else []) @
        [snd chord])"

definition modifier_name :: "string \<Rightarrow> string option" where
  \<comment> \<open>the \<open>if\<close>/\<open>elif\<close> chain of the parser's loop, as a function of one token\<close>
  "modifier_name m =
     (let l = lower m
      in if l = ''ctrl'' \<or> l = ''control'' then Some ''control''
         else if l = ''alt'' then Some ''alt''
         else if l = ''shift'' then Some ''shift''
         else if l = ''super'' \<or> l = ''win'' \<or> l = ''mod4'' then Some ''super''
         else None)"

section \<open>AudioRouter\<close>

subsection \<open>Running the control tool\<close>

text \<open>
  \<open>subprocess.run(cmd, capture_output=True, text=True)\<close> either raises (the executable
  is not found) or returns a completed process. The sound server and its control tool are
  not part of the repository: they are the parameter \<open>exec\<close>, a function from the state
  of the environment and the argument vector to an exception or a completed process and
  the next state. Every operation takes the router and returns an exception or a value,
  together with the router as the call leaves it: a Python object keeps its fields when a
  method raises.
\<close>

record completed =
  returncode :: int
  stdout :: string
  stderr :: string

type_synonym 'e runner = "'e \<Rightarrow> string list \<Rightarrow> exn + (completed \<times> 'e)"

record 'e audio_router =
  sink_module_id :: "string option"
  source_module_id :: "string option"
  monitor_module_id :: "string option"
  mic_loop_module_id :: "string option"
  env :: 'e  \<comment> \<open>not a field of the class: the state of the environment\<close>
  issued :: "string list list"  \<comment> \<open>not a field of the class: the commands run so far\<close>

definition SINK_NAME :: string where "SINK_NAME = ''soundpad_sink''"
definition SOURCE_NAME :: string where "SOURCE_NAME = ''soundpad_mic''"

definition TAB :: char where "TAB = CHR 0x09"
definition NL :: char where "NL = CHR 0x0A"

definition init_audio_router :: "'e \<Rightarrow> 'e audio_router" where
  "init_audio_router e =
     \<lparr>sink_module_id = None, source_module_id = None, monitor_module_id = None,
      mic_loop_module_id = None, env = e, issued = []\<rparr>"

definition run :: "'e runner \<Rightarrow> string list \<Rightarrow> 'e audio_router \<Rightarrow> (exn + completed) \<times> 'e audio_router" where
  "run exec cmd r =
     (case exec (env r) cmd of
        Inl e \<Rightarrow> (Inl e, r)
      | Inr (c, e') \<Rightarrow> (Inr c, r\<lparr>env := e', issued := issued r @ [cmd]\<rparr>))"

definition truthy :: "string option \<Rightarrow> bool" where
  \<comment> \<open>Python's truth value of None or a string\<close>
  "truthy v = (case v of None \<Rightarrow> False | Some s \<Rightarrow> s \<noteq> [])"

definition failure_message :: "completed \<Rightarrow> string" where
  \<comment> \<open>\<open>result.stderr.strip() or result.stdout.strip()\<close>\<close>
  "failure_message c = (if strip (stderr c) \<noteq> [] then strip (stderr c) else strip (stdout c))"

definition list_modules_cmd :: "string list" where
  "list_modules_cmd = [''pactl'', ''list'', ''short'', ''modules'']"

fun module_id_in_lines :: "string \<Rightarrow> string option \<Rightarrow> string list \<Rightarrow> string option" where
  \<comment> \<open>the loop of \<open>_module_id_by_name\<close> over the lines of the module list\<close>
  "module_id_in_lines module_name arg_token [] = None"
| "module_id_in_lines module_name arg_token (line # rest) =
     (let parts = split_on TAB line
      in if length parts < 3 then module_id_in_lines module_name arg_token rest
         else let mod_id = parts ! 0; mod_name = parts ! 1; mod_args = parts ! 2
              in if mod_name \<noteq> module_name then module_id_in_lines module_name arg_token rest
                 else (case arg_token of
                         None \<Rightarrow> Some mod_id
                       | Some t \<Rightarrow> if sublist t mod_args then Some mod_id
                                   else module_id_in_lines module_name arg_token rest))"

definition module_id_by_name ::
  "'e runner \<Rightarrow> string \<Rightarrow> string option \<Rightarrow> 'e audio_router \<Rightarrow> (exn + string option) \<times> 'e audio_router" where
  "module_id_by_name exec module_name arg_token r =
     (case run exec list_modules_cmd r of
        (Inl e, r) \<Rightarrow> (Inl e, r)
      | (Inr result, r) \<Rightarrow>
          if returncode result \<noteq> 0 then (Inr None, r)
          else (Inr (module_id_in_lines module_name arg_token (splitlines (stdout result))), r))"

definition sink_cmd :: "string list" where
  "sink_cmd = [''pactl'', ''load-module'', ''module-null-sink'', ''sink_name='' @ SINK_NAME,
               ''sink_properties=device.description=SoundpadSink'']"

definition source_cmd :: "string list" where
  "source_cmd = [''pactl'', ''load-module'', ''module-remap-source'',
                 ''master='' @ SINK_NAME @ ''.monitor'', ''source_name='' @ SOURCE_NAME,
                 ''source_properties=device.description=SoundpadMic'']"

definition ensure_sink ::
  "'e runner \<Rightarrow> 'e audio_router \<Rightarrow> (exn + (bool \<times> string) option) \<times> 'e audio_router" where
  \<comment> \<open>the first half of \<open>ensure_virtual_mic\<close>; \<open>Some\<close> is its early \<open>return\<close>\<close>
  "ensure_sink exec r =
     (case module_id_by_name exec ''module-null-sink'' (Some (''sink_name='' @ SINK_NAME)) r of
        (Inl e, r) \<Rightarrow> (Inl e, r)
      | (Inr found, r) \<Rightarrow>
          (let r = r\<lparr>sink_module_id := found\<rparr>
           in if truthy (sink_module_id r) then (Inr None, r)
              else (case run exec sink_cmd r of
                      (Inl e, r) \<Rightarrow> (Inl e, r)
                    | (Inr sink_result, r) \<Rightarrow>
                        if returncode sink_result \<noteq> 0
                        then (Inr (Some (False, failure_message sink_result)), r)
                        else (Inr None, r\<lparr>sink_module_id := Some (strip (stdout sink_result))\<rparr>))))"

definition ensure_source ::
  "'e runner \<Rightarrow> 'e audio_router \<Rightarrow> (exn + (bool \<times> string) option) \<times> 'e audio_router" where
  \<comment> \<open>the second half of \<open>ensure_virtual_mic\<close>\<close>
  "ensure_source exec r =
     (case module_id_by_name exec ''module-remap-source'' (Some (''source_name='' @ SOURCE_NAME)) r of
        (Inl e, r) \<Rightarrow> (Inl e, r)
      | (Inr found, r) \<Rightarrow>
          (let r = r\<lparr>source_module_id := found\<rparr>
           in if truthy (source_module_id r) then (Inr None, r)
              else (case run exec source_cmd r of
                      (Inl e, r) \<Rightarrow> (Inl e, r)
                    | (Inr source_result, r) \<Rightarrow>
                        if returncode source_result \<noteq> 0
                        then (Inr (Some (False, failure_message source_result)), r)
                        else (Inr None, r\<lparr>source_module_id := Some (strip (stdout source_result))\<rparr>))))"

definition ensure_virtual_mic ::
  "'e runner \<Rightarrow> 'e audio_router \<Rightarrow> (exn + bool \<times> string) \<times> 'e audio_router" where
  "ensure_virtual_mic exec r =
     (case ensure_sink exec r of
        (Inl e, r) \<Rightarrow> (Inl e, r)
      | (Inr (Some early), r) \<Rightarrow> (Inr early, r)
      | (Inr None, r) \<Rightarrow>
          (case ensure_source exec r of
             (Inl e, r) \<Rightarrow> (Inl e, r)
           | (Inr (Some early), r) \<Rightarrow> (Inr early, r)
           | (Inr None, r) \<Rightarrow>
               (Inr (True, ''Ready: sink='' @ SINK_NAME @ '', mic='' @ SOURCE_NAME), r)))"

definition monitor_cmd :: "string list" where
  "monitor_cmd = [''pactl'', ''load-module'', ''module-loopback'',
                  ''source='' @ SINK_NAME @ ''.monitor'', ''sink=@DEFAULT_SINK@'',
                  ''latency_msec=30'']"

definition ensure_local_monitor ::
  "'e runner \<Rightarrow> 'e audio_router \<Rightarrow> (exn + bool \<times> string) \<times> 'e audio_router" where
  "ensure_local_monitor exec r =
     (case module_id_by_name exec ''module-loopback'' (Some (''source='' @ SINK_NAME @ ''.monitor'')) r of
        (Inl e, r) \<Rightarrow> (Inl e, r)
      | (Inr found, r) \<Rightarrow>
          (let r = r\<lparr>monitor_module_id := found\<rparr>
           in if truthy (monitor_module_id r) then (Inr (True, ''Local monitor ready''), r)
              else (case run exec monitor_cmd r of
                      (Inl e, r) \<Rightarrow> (Inl e, r)
                    | (Inr monitor_result, r) \<Rightarrow>
                        if returncode monitor_result \<noteq> 0
                        then (Inr (False, failure_message monitor_result), r)
                        else (Inr (True, ''Local monitor enabled''),
                              r\<lparr>monitor_module_id := Some (strip (stdout monitor_result))\<rparr>))))"

definition unload_monitor ::
  "'e runner \<Rightarrow> 'e audio_router \<Rightarrow> (exn + bool \<times> string) \<times> 'e audio_router" where
  "unload_monitor exec r =
     (if \<not> truthy (monitor_module_id r) then (Inr (True, ''Speaker monitor already disabled''), r)
      else (case run exec [''pactl'', ''unload-module'', the (monitor_module_id r)] r of
              (Inl e, r) \<Rightarrow> (Inl e, r)
            | (Inr unload_result, r) \<Rightarrow>
                if returncode unload_result \<noteq> 0
                then (Inr (False, failure_message unload_result), r)
                else (Inr (True, ''Speaker monitor muted''), r\<lparr>monitor_module_id := None\<rparr>)))"

definition set_mic_mute ::
  "'e runner \<Rightarrow> bool \<Rightarrow> 'e audio_router \<Rightarrow> (exn + bool \<times> string) \<times> 'e audio_router" where
  "set_mic_mute exec muted r =
     (let mute_value = (if muted then ''1'' else ''0'')
      in case run exec [''pactl'', ''set-source-mute'', SOURCE_NAME, mute_value] r of
           (Inl e, r) \<Rightarrow> (Inl e, r)
         | (Inr result, r) \<Rightarrow>
             if returncode result \<noteq> 0 then (Inr (False, failure_message result), r)
             else (Inr (True, if muted then ''Mic muted'' else ''Mic unmuted''), r))"

fun input_source_names :: "string list \<Rightarrow> string list" where
  \<comment> \<open>the loop of \<open>list_input_sources\<close> over the lines of the source list\<close>
  "input_source_names [] = []"
| "input_source_names (line # rest) =
     (let parts = split_on TAB line
      in if length parts < 2 then input_source_names rest
         else let source_name = strip (parts ! 1)
              in if source_name = SOURCE_NAME \<or> suffix ''.monitor'' source_name
                 then input_source_names rest
                 else source_name # input_source_names rest)"

definition list_input_sources ::
  "'e runner \<Rightarrow> 'e audio_router \<Rightarrow> (exn + string list) \<times> 'e audio_router" where
  "list_input_sources exec r =
     (case run exec [''pactl'', ''list'', ''short'', ''sources''] r of
        (Inl e, r) \<Rightarrow> (Inl e, r)
      | (Inr result, r) \<Rightarrow>
          if returncode result \<noteq> 0 then (Inr [], r)
          else (Inr (input_source_names (splitlines (stdout result))), r))"

fun default_source_in_lines :: "string list \<Rightarrow> string" where
  \<comment> \<open>the loop of \<open>get_default_source\<close>; \<open>line.split(":", 1)[1]\<close> is the text after the
      first colon, which the prefix test guarantees to be there\<close>
  "default_source_in_lines [] = []"
| "default_source_in_lines (line # rest) =
     (if prefix ''Default Source:'' line
      then strip (drop 1 (dropWhile (\<lambda>c. c \<noteq> CHR '':'') line))
      else default_source_in_lines rest)"

definition get_default_source ::
  "'e runner \<Rightarrow> 'e audio_router \<Rightarrow> (exn + string) \<times> 'e audio_router" where
  "get_default_source exec r =
     (case run exec [''pactl'', ''info''] r of
        (Inl e, r) \<Rightarrow> (Inl e, r)
      | (Inr result, r) \<Rightarrow>
          if returncode result \<noteq> 0 then (Inr [], r)
          else (Inr (default_source_in_lines (splitlines (stdout result))), r))"

fun mic_loop_in_lines :: "string list \<Rightarrow> string option" where
  \<comment> \<open>the loop of \<open>_find_mic_loop_module\<close> over the lines of the module list\<close>
  "mic_loop_in_lines [] = None"
| "mic_loop_in_lines (line # rest) =
     (let parts = split_on TAB line
      in if length parts < 3 then mic_loop_in_lines rest
         else let mod_id = parts ! 0; mod_name = parts ! 1; mod_args = parts ! 2
              in if mod_name \<noteq> ''module-loopback'' then mic_loop_in_lines rest
                 else if sublist (''sink='' @ SINK_NAME) mod_args
                         \<and> \<not> sublist ''source=soundpad_sink.monitor'' mod_args
                      then Some mod_id
                      else mic_loop_in_lines rest)"

definition find_mic_loop_module ::
  "'e runner \<Rightarrow> 'e audio_router \<Rightarrow> (exn + string option) \<times> 'e audio_router" where
  "find_mic_loop_module exec r =
     (case run exec list_modules_cmd r of
        (Inl e, r) \<Rightarrow> (Inl e, r)
      | (Inr result, r) \<Rightarrow>
          if returncode result \<noteq> 0 then (Inr None, r)
          else (Inr (mic_loop_in_lines (splitlines (stdout result))), r))"

definition unload_cmd :: "string \<Rightarrow> string list" where
  "unload_cmd module_id = [''pactl'', ''unload-module'', module_id]"

definition mic_loop_cmd :: "string \<Rightarrow> string list" where
  "mic_loop_cmd source_name =
     [''pactl'', ''load-module'', ''module-loopback'', ''source='' @ source_name,
      ''sink='' @ SINK_NAME, ''latency_msec=20'']"

definition load_mic_loop ::
  "'e runner \<Rightarrow> string \<Rightarrow> 'e audio_router \<Rightarrow> (exn + bool \<times> string) \<times> 'e audio_router" where
  \<comment> \<open>the second half of \<open>connect_input_source_to_soundpad\<close>\<close>
  "load_mic_loop exec source_name r =
     (case run exec (mic_loop_cmd source_name) r of
        (Inl e, r) \<Rightarrow> (Inl e, r)
      | (Inr result, r) \<Rightarrow>
          if returncode result \<noteq> 0 then (Inr (False, failure_message result), r)
          else (Inr (True, ''Mic source connected: '' @ source_name),
                r\<lparr>mic_loop_module_id := Some (strip (stdout result))\<rparr>))"

definition connect_input_source_to_soundpad ::
  "'e runner \<Rightarrow> string \<Rightarrow> 'e audio_router \<Rightarrow> (exn + bool \<times> string) \<times> 'e audio_router" where
  "connect_input_source_to_soundpad exec source_name r =
     (case find_mic_loop_module exec r of
        (Inl e, r) \<Rightarrow> (Inl e, r)
      | (Inr current, r) \<Rightarrow>
          if truthy current
          then (case run exec (unload_cmd (the current)) r of
                  (Inl e, r) \<Rightarrow> (Inl e, r)
                | (Inr unload, r) \<Rightarrow>
                    if returncode unload \<noteq> 0 then (Inr (False, failure_message unload), r)
                    else load_mic_loop exec source_name (r\<lparr>mic_loop_module_id := None\<rparr>))
          else load_mic_loop exec source_name r)"

definition disconnect_input_source_from_soundpad ::
  "'e runner \<Rightarrow> 'e audio_router \<Rightarrow> (exn + bool \<times> string) \<times> 'e audio_router" where
  "disconnect_input_source_from_soundpad exec r =
     (case find_mic_loop_module exec r of
        (Inl e, r) \<Rightarrow> (Inl e, r)
      | (Inr module_id, r) \<Rightarrow>
          if \<not> truthy module_id then (Inr (True, ''Mic source already disconnected''), r)
          else (case run exec (unload_cmd (the module_id)) r of
                  (Inl e, r) \<Rightarrow> (Inl e, r)
                | (Inr result, r) \<Rightarrow>
                    if returncode result \<noteq> 0 then (Inr (False, failure_message result), r)
                    else (Inr (True, ''Mic source disconnected''),
                          r\<lparr>mic_loop_module_id := None\<rparr>)))"

subsection \<open>A sound server to run the router against\<close>

text \<open>
  A reference model of the control tool \<open>pactl\<close> in front of a sound server, for the
  commands the router issues. The server holds its loaded modules (index, name, argument
  string), the next free index, its sources and the default source. \<open>load-module\<close> loads a
  module under the next index, with the arguments joined by spaces, and prints the index;
  \<open>unload-module\<close> removes the module with the given index; \<open>list short modules\<close> prints
  one line per module: index, name and argument string, each followed by a tab. A
  command can also fail without any effect: \<open>fault\<close> says, for a command and the number
  of commands run before it, whether it fails and with which exit code (one more than
  the number given), standard output and standard error.
\<close>

record pa_server =
  pactl_present :: bool  \<comment> \<open>is the executable on PATH\<close>
  modules :: "(nat \<times> string \<times> string) list"
  next_index :: nat
  sources :: "string list"
  default_source :: string
  ticks :: nat  \<comment> \<open>the number of commands run so far\<close>
  fault :: "string list \<Rightarrow> nat \<Rightarrow> (nat \<times> string \<times> string) option"

definition digit_char :: "nat \<Rightarrow> char" where
  "digit_char d = char_of (48 + d)"

function show_nat :: "nat \<Rightarrow> string" where
  "show_nat n = (if n < 10 then [digit_char n] else show_nat (n div 10) @ [digit_char (n mod 10)])"
  by pat_completeness auto
termination
  by (relation "measure id") auto

declare show_nat.simps [simp del]

definition module_line :: "nat \<times> string \<times> string \<Rightarrow> string" where
  "module_line m = show_nat (fst m) @ [TAB] @ fst (snd m) @ [TAB] @ snd (snd m) @ [TAB, NL]"

definition source_line :: "nat \<times> string \<Rightarrow> string" where
  "source_line s = show_nat (fst s) @ [TAB] @ snd s @ [TAB] @ ''module-alsa-card.c'' @ [TAB]
                   @ ''s16le 2ch 44100Hz'' @ [TAB] @ ''SUSPENDED'' @ [NL]"

definition ok :: "string \<Rightarrow> completed" where
  "ok out = \<lparr>returncode = 0, stdout = out, stderr = []\<rparr>"

definition failed :: "nat \<Rightarrow> string \<Rightarrow> string \<Rightarrow> completed" where
  "failed n out err = \<lparr>returncode = 1 + int n, stdout = out, stderr = err\<rparr>"

definition pactl_command :: "pa_server \<Rightarrow> string list \<Rightarrow> completed \<times> pa_server" where
  \<comment> \<open>a command that reaches the server\<close>
  "pactl_command s cmd =
     (if cmd = [''pactl'', ''list'', ''short'', ''modules'']
      then (ok (concat (map module_line (modules s))), s)
      else if cmd = [''pactl'', ''list'', ''short'', ''sources'']
      then (ok (concat (map source_line (enumerate 0 (sources s)))), s)
      else if cmd = [''pactl'', ''info'']
      then (ok (''Server Name: PulseAudio'' @ [NL] @ ''Default Sink: speakers'' @ [NL]
                @ ''Default Source: '' @ default_source s @ [NL]), s)
      else if length cmd = 4 \<and> take 2 cmd = [''pactl'', ''set-source-mute'']
      then (ok [], s)
      else if length cmd = 3 \<and> take 2 cmd = [''pactl'', ''unload-module'']
      then (if cmd ! 2 \<in> set (map (show_nat \<circ> fst) (modules s))
            then (ok [], s\<lparr>modules := filter (\<lambda>m. show_nat (fst m) \<noteq> cmd ! 2) (modules s)\<rparr>)
            else (failed 0 [] (''Failure: No such entity'' @ [NL]), s))
      else if 3 \<le> length cmd \<and> take 2 cmd = [''pactl'', ''load-module'']
      then (ok (show_nat (next_index s) @ [NL]),
            s\<lparr>modules := modules s @ [(next_index s, cmd ! 2, join '' '' (drop 3 cmd))],
               next_index := Suc (next_index s)\<rparr>)
      else (failed 0 [] (''No valid command specified.'' @ [NL]), s))"

definition pactl :: "pa_server runner" where
  "pactl s cmd =
     (if \<not> pactl_present s then Inl FileNotFoundError
      else (case fault s cmd (ticks s) of
              Some (n, out, err) \<Rightarrow> Inr (failed n out err, s\<lparr>ticks := Suc (ticks s)\<rparr>)
            | None \<Rightarrow> Inr (pactl_command (s\<lparr>ticks := Suc (ticks s)\<rparr>) cmd)))"

definition healthy_server :: pa_server where
  \<comment> \<open>a server with the modules of a desktop session and no failing command\<close>
  "healthy_server =
     \<lparr>pactl_present = True,
      modules = [(0, ''module-device-restore'', []),
                 (1, ''module-alsa-card'', ''device_id=0 name=pci-0000_00_1f.3'')],
      next_index = 2,
      sources = [''alsa_output.pci.analog-stereo.monitor'', ''alsa_input.pci.analog-stereo''],
      default_source = ''alsa_input.pci.analog-stereo'',
      ticks = 0,
      fault = (\<lambda>cmd n. None)\<rparr>"

definition unload_denied :: "string list \<Rightarrow> nat \<Rightarrow> (nat \<times> string \<times> string) option" where
  \<comment> \<open>every \<open>unload-module\<close> fails\<close>
  "unload_denied cmd n =
     (if take 2 cmd = [''pactl'', ''unload-module'']
      then Some (0, [], ''Failure: Module initialization failed'' @ [NL]) else None)"

definition is_load_module :: "string list \<Rightarrow> bool" where
  \<comment> \<open>the command loads a module\<close>
  "is_load_module cmd = (take 2 cmd = [''pactl'', ''load-module''])"

definition mic_routed_server :: pa_server where
  \<comment> \<open>the healthy server after a microphone has been routed into the soundpad sink\<close>
  "mic_routed_server =
     healthy_server\<lparr>modules := modules healthy_server @
                        [(2, ''module-loopback'', ''source=mic1 sink=soundpad_sink latency_msec=20'')],
                     next_index := 3\<rparr>"

definition stuck_server :: pa_server where
  \<comment> \<open>the same server when every \<open>unload-module\<close> fails\<close>
  "stuck_server = mic_routed_server\<lparr>fault := unload_denied\<rparr>"

subsection \<open>Outcomes at the public boundary\<close>

definition always_runs :: "'e runner \<Rightarrow> bool" where
  \<comment> \<open>the control tool can be executed: every invocation yields a completed process\<close>
  "always_runs exec = (\<forall>e cmd. \<exists>c e'. exec e cmd = Inr (c, e'))"

definition returns :: "(exn + 'a) \<times> 's \<Rightarrow> bool" where
  \<comment> \<open>the call returned a value: no exception left it\<close>
  "returns res = (case fst res of Inl e \<Rightarrow> False | Inr v \<Rightarrow> True)"

definition pactl_on_path :: "pa_server runner" where
  \<comment> \<open>the reference server with the executable installed\<close>
  "pactl_on_path s cmd = pactl (s\<lparr>pactl_present := True\<rparr>) cmd"

definition no_pactl_server :: pa_server where
  \<comment> \<open>the executable is not on PATH\<close>
  "no_pactl_server = healthy_server\<lparr>pactl_present := False\<rparr>"

subsection \<open>Reading the server's module list\<close>

definition clean :: "string \<Rightarrow> bool" where
  \<comment> \<open>no tab and no line boundary: the text stays in its field of its line\<close>
  "clean s = list_all (\<lambda>c. c \<noteq> TAB \<and> \<not> is_linebreak c) s"

definition clean_module :: "nat \<times> string \<times> string \<Rightarrow> bool" where
  "clean_module m = (clean (fst (snd m)) \<and> clean (snd (snd m)))"

definition line_of :: "nat \<times> string \<times> string \<Rightarrow> string" where
  \<comment> \<open>a line of the module list without its end\<close>
  "line_of m = show_nat (fst m) @ [TAB] @ fst (snd m) @ [TAB] @ snd (snd m) @ [TAB]"

definition is_mic_loop :: "nat \<times> string \<times> string \<Rightarrow> bool" where
  \<comment> \<open>a mic-passthrough loopback: the test of \<open>_find_mic_loop_module\<close> on a loaded module\<close>
  "is_mic_loop m =
     (fst (snd m) = ''module-loopback'' \<and> sublist ''sink=soundpad_sink'' (snd (snd m))
      \<and> \<not> sublist ''source=soundpad_sink.monitor'' (snd (snd m)))"


definition digit_value :: "char \<Rightarrow> nat" where
  "digit_value c = of_char c - 48"

definition read_nat :: "string \<Rightarrow> nat" where
  \<comment> \<open>the number a decimal numeral stands for\<close>
  "read_nat s = foldl (\<lambda>a c. 10 * a + digit_value c) 0 s"

definition listing_ok :: "pa_server \<Rightarrow> bool" where
  \<comment> \<open>the module listing never fails on this server\<close>
  "listing_ok s = (\<forall>n. fault s list_modules_cmd n = None)"

definition loop_args :: "string \<Rightarrow> string" where
  \<comment> \<open>the argument string of the loopback that \<open>connect_input_source_to_soundpad\<close> loads\<close>
  "loop_args source_name = ''source='' @ source_name @ '' sink=soundpad_sink latency_msec=20''"

definition mic_loops :: "pa_server \<Rightarrow> (nat \<times> string \<times> string) list" where
  \<comment> \<open>the mic-passthrough loopbacks loaded in the server\<close>
  "mic_loops s = filter is_mic_loop (modules s)"

fun connect_each ::
  "'e runner \<Rightarrow> string list \<Rightarrow> 'e audio_router \<Rightarrow> (exn + bool \<times> string) list \<times> 'e audio_router" where
  \<comment> \<open>\<open>connect_input_source_to_soundpad\<close> called for each name in turn, with the outcomes\<close>
  "connect_each exec [] r = ([], r)"
| "connect_each exec (source_name # rest) r =
     (case connect_input_source_to_soundpad exec source_name r of
        (res, r) \<Rightarrow> (case connect_each exec rest r of (outcomes, r) \<Rightarrow> (res # outcomes, r)))"







section \<open>SoundpadApp\<close>

text \<open>
  The fields of the application object that the push-to-talk handlers and the hotkey
  editor read and write; a Tk variable is modelled by its value. A clip is a dictionary
  with the keys \<open>label\<close>, \<open>path\<close> and \<open>hotkey\<close>: every clip the application builds
  (\<open>_normalize_clip\<close>, \<open>add_clips\<close>) has the three of them. What the handlers do outside the
  object is logged: the message boxes shown, the operations of the router called, the
  bindings made in Tk, the files written. The list box widget is not modelled. What the
  desktop answers is a parameter: the display backend, whether writing a file raises, and
  whether Tk refuses to bind an event sequence.
\<close>

record clip =
  clip_label :: string
  clip_path :: string
  clip_hotkey :: string

datatype action = ClipIndex nat | ActionName string

datatype router_op = Connect string | Disconnect

datatype dialog = ShowInfo string string | ShowError string string

datatype tk_call = UnbindAll string | BindAll string nat

datatype file_write = SettingsFile string bool string | ProfilesFile "clip list"

record desktop =
  backend :: xbackend
  write_raises :: "exn option"  \<comment> \<open>\<open>mkdir\<close> and \<open>write_text\<close> of a save\<close>
  bind_all_raises :: "string \<Rightarrow> exn option"  \<comment> \<open>\<open>bind_all(sequence, ...)\<close>\<close>

record 'e app =
  clips :: "clip list"
  selected_index :: "nat option"
  selected_input_source :: string
  push_to_talk_enabled :: bool
  ptt_hotkey :: string
  ptt_pressed :: bool
  global_hotkeys_active :: bool
  global_hotkeys :: "action hotkey_manager"
  last_hotkey_conflicts :: "string list"
  bound_hotkeys :: "string list"
  router :: "'e audio_router"
  status_text :: string
  dialogs :: "dialog list"  \<comment> \<open>not a field of the class: the message boxes shown\<close>
  router_calls :: "router_op list"
    \<comment> \<open>not a field of the class: the operations of the router called from the handlers\<close>
  tk_calls :: "tk_call list"  \<comment> \<open>not a field of the class: the bindings made and removed\<close>
  written :: "file_write list"  \<comment> \<open>not a field of the class: the files written\<close>

subsection \<open>Push-to-talk\<close>

definition save_settings :: "desktop \<Rightarrow> 'e app \<Rightarrow> (exn + unit) \<times> 'e app" where
  "save_settings d app =
     (case write_raises d of
        Some e \<Rightarrow> (Inl e, app)
      | None \<Rightarrow>
          (Inr (), app\<lparr>written := written app @
                     [SettingsFile (strip (selected_input_source app)) (push_to_talk_enabled app)
                        (strip (ptt_hotkey app))]\<rparr>))"

definition ensure_selected_source_connected ::
  "'e runner \<Rightarrow> desktop \<Rightarrow> 'e app \<Rightarrow> (exn + bool \<times> string) \<times> 'e app" where
  "ensure_selected_source_connected exec d app =
     (let source_name = strip (selected_input_source app)
      in if source_name = [] then (Inr (False, ''No input source selected''), app)
         else let app = app\<lparr>router_calls := router_calls app @ [Connect source_name]\<rparr>
              in case connect_input_source_to_soundpad exec source_name (router app) of
                   (Inl e, r) \<Rightarrow> (Inl e, app\<lparr>router := r\<rparr>)
                 | (Inr (okay, msg), r) \<Rightarrow>
                     (let app = app\<lparr>router := r\<rparr>
                      in if okay
                         then (case save_settings d app of
                                 (Inl e, app) \<Rightarrow> (Inl e, app)
                               | (Inr u, app) \<Rightarrow> (Inr (okay, msg), app))
                         else (Inr (okay, msg), app)))"

definition ptt_press :: "'e runner \<Rightarrow> desktop \<Rightarrow> 'e app \<Rightarrow> (exn + unit) \<times> 'e app" where
  "ptt_press exec d app =
     (if \<not> push_to_talk_enabled app \<or> ptt_pressed app then (Inr (), app)
      else let app = app\<lparr>ptt_pressed := True\<rparr>
           in case ensure_selected_source_connected exec d app of
                (Inl e, app) \<Rightarrow> (Inl e, app)
              | (Inr (okay, msg), app) \<Rightarrow>
                  if okay then (Inr (), app\<lparr>status_text := ''PTT active''\<rparr>)
                  else (Inr (), app\<lparr>status_text := ''PTT failed'',
                                     dialogs := dialogs app @ [ShowError ''Push-to-talk failed'' msg]\<rparr>))"

definition ptt_release :: "'e runner \<Rightarrow> 'e app \<Rightarrow> (exn + unit) \<times> 'e app" where
  "ptt_release exec app =
     (if \<not> ptt_pressed app then (Inr (), app)
      else let app = app\<lparr>ptt_pressed := False, router_calls := router_calls app @ [Disconnect]\<rparr>
           in case disconnect_input_source_from_soundpad exec (router app) of
                (Inl e, r) \<Rightarrow> (Inl e, app\<lparr>router := r\<rparr>)
              | (Inr (okay, msg), r) \<Rightarrow>
                  (let app = app\<lparr>router := r\<rparr>
                   in if okay then (Inr (), app\<lparr>status_text := ''PTT released''\<rparr>)
                      else (Inr (), app\<lparr>status_text := ''PTT release failed'',
                                         dialogs := dialogs app @ [ShowError ''Push-to-talk failed'' msg]\<rparr>)))"

text \<open>
  \<open>_on_global_hotkey\<close> hands a press or a release of the push-to-talk chord to the Tk main
  loop with \<open>after(0, ...)\<close>. The main loop runs the scheduled handlers in the order of the
  events; an exception that leaves a handler is reported by Tk
  (\<open>report_callback_exception\<close>) and the loop goes on with the object as the handler left it.
\<close>

datatype ptt_event = Down | Up

definition on_ptt_event :: "'e runner \<Rightarrow> desktop \<Rightarrow> ptt_event \<Rightarrow> 'e app \<Rightarrow> (exn + unit) \<times> 'e app" where
  "on_ptt_event exec d ev app = (case ev of Down \<Rightarrow> ptt_press exec d app | Up \<Rightarrow> ptt_release exec app)"

definition deliver :: "'e runner \<Rightarrow> desktop \<Rightarrow> ptt_event list \<Rightarrow> 'e app \<Rightarrow> 'e app" where
  "deliver exec d evs app = foldl (\<lambda>app ev. snd (on_ptt_event exec d ev app)) app evs"

subsection \<open>Editing the hotkey of a clip\<close>

definition tk_modifier :: "string \<Rightarrow> string option" where
  \<comment> \<open>the branches of the loop over \<open>parts[:-1]\<close>; None is the early \<open>return None\<close>\<close>
  "tk_modifier m =
     (let l = lower m
      in if l = ''ctrl'' \<or> l = ''control'' then Some ''Control''
         else if l = ''alt'' then Some ''Alt''
         else if l = ''shift'' then Some ''Shift''
         else if l = ''super'' \<or> l = ''win'' \<or> l = ''mod4'' then Some ''Mod4''
         else None)"

fun tk_modifiers :: "string list \<Rightarrow> string list \<Rightarrow> string list option" where
  \<comment> \<open>the loop over \<open>parts[:-1]\<close>; the first argument is \<open>mods\<close> so far\<close>
  "tk_modifiers mods [] = Some mods"
| "tk_modifiers mods (m # rest) =
     (case tk_modifier m of None \<Rightarrow> None | Some n \<Rightarrow> tk_modifiers (mods @ [n]) rest)"

definition hotkey_to_tk_sequence :: "string \<Rightarrow> string option" where
  "hotkey_to_tk_sequence hotkey_text =
     (let raw = strip hotkey_text
      in if raw = [] then None
         else let parts = hotkey_tokens raw
              in if parts = [] then None
                 else let key_part = last parts
                      in (case tk_modifiers [] (butlast parts) of
                            None \<Rightarrow> None
                          | Some mods \<Rightarrow>
                              (let key_name = (if length key_part = 1 then lower key_part
                                               else key_part);
                                   chunks = mods @ [''Key-'' @ key_name]
                               in Some (''<'' @ join ''-'' chunks @ ''>''))))"

definition save_clips :: "desktop \<Rightarrow> 'e app \<Rightarrow> (exn + unit) \<times> 'e app" where
  \<comment> \<open>\<open>_save_clips\<close>: the profiles file and its backup are written\<close>
  "save_clips d app =
     (case write_raises d of
        Some e \<Rightarrow> (Inl e, app)
      | None \<Rightarrow> (Inr (), app\<lparr>written := written app @ [ProfilesFile (clips app)]\<rparr>))"

definition hotkey_entries :: "'e app \<Rightarrow> (action \<times> string) list" where
  \<comment> \<open>\<open>entries\<close> of \<open>_register_global_hotkeys\<close>\<close>
  "hotkey_entries app =
     concat (map (\<lambda>(idx, c). let h = strip (clip_hotkey c)
                              in if h \<noteq> [] then [(ClipIndex idx, h)] else [])
               (enumerate 0 (clips app)))
     @ [(ActionName ''__stop__'', ''Alt+'' @ [CHR 0x5C])]
     @ (if push_to_talk_enabled app
        then (let ptt_key = strip (ptt_hotkey app)
              in if ptt_key \<noteq> [] then [(ActionName ''__ptt__'', ptt_key)] else [])
        else [])"

definition register_global_hotkeys :: "desktop \<Rightarrow> 'e app \<Rightarrow> (exn + unit) \<times> 'e app" where
  "register_global_hotkeys d app =
     (if \<not> global_hotkeys_active app then (Inr (), app)
      else case register (backend d) (global_hotkeys app) (hotkey_entries app) of
             (Inl e, hk) \<Rightarrow> (Inl e, app\<lparr>global_hotkeys := hk\<rparr>)
           | (Inr conflicts, hk) \<Rightarrow>
               (let app = app\<lparr>global_hotkeys := hk, last_hotkey_conflicts := conflicts\<rparr>
                in (Inr (), if conflicts \<noteq> []
                            then app\<lparr>status_text := ''Global hotkey conflicts: '' @ join '', '' conflicts\<rparr>
                            else app)))"

fun bind_clips :: "desktop \<Rightarrow> (nat \<times> clip) list \<Rightarrow> 'e app \<Rightarrow> (exn + unit) \<times> 'e app" where
  \<comment> \<open>the loop of \<open>_bind_hotkeys\<close> over the numbered clips\<close>
  "bind_clips d [] app = (Inr (), app)"
| "bind_clips d ((idx, c) # rest) app =
     (let hotkey_label = strip (clip_hotkey c)
      in if hotkey_label = [] then bind_clips d rest app
         else (case hotkey_to_tk_sequence hotkey_label of
                 None \<Rightarrow> bind_clips d rest app
               | Some sequence \<Rightarrow>
                   (case bind_all_raises d sequence of
                      Some e \<Rightarrow> (Inl e, app)
                    | None \<Rightarrow>
                        bind_clips d rest
                          (app\<lparr>tk_calls := tk_calls app @ [BindAll sequence idx],
                               bound_hotkeys := bound_hotkeys app @ [sequence]\<rparr>))))"

definition bind_hotkeys :: "desktop \<Rightarrow> 'e app \<Rightarrow> (exn + unit) \<times> 'e app" where
  "bind_hotkeys d app =
     (let app = app\<lparr>tk_calls := tk_calls app @ map UnbindAll (bound_hotkeys app),
                    bound_hotkeys := []\<rparr>
      in case bind_clips d (enumerate 0 (clips app)) app of
           (Inl e, app) \<Rightarrow> (Inl e, app)
         | (Inr u, app) \<Rightarrow> register_global_hotkeys d app)"

fun clear_duplicate :: "nat \<Rightarrow> string \<Rightarrow> nat \<Rightarrow> clip list \<Rightarrow> clip list" where
  \<comment> \<open>the loop over \<open>enumerate(self.clips)\<close> from the index \<open>idx\<close> on: the first other clip
      whose hotkey text equals the typed one, whitespace and case apart, is cleared, and
      the loop ends there\<close>
  "clear_duplicate selected typed idx [] = []"
| "clear_duplicate selected typed idx (other # rest) =
     (if idx = selected then other # clear_duplicate selected typed (Suc idx) rest
      else if lower (strip (clip_hotkey other)) = lower typed
      then other\<lparr>clip_hotkey := []\<rparr> # rest
      else other # clear_duplicate selected typed (Suc idx) rest)"





subsection \<open>An application to run the handlers on\<close>

definition plain_desktop :: desktop where
  "plain_desktop = \<lparr>backend = demo_backend, write_raises = None, bind_all_raises = (\<lambda>s. None)\<rparr>"

definition idle_app :: "pa_server app" where
  \<comment> \<open>push-to-talk enabled and idle, no input source selected, two clips\<close>
  "idle_app =
     \<lparr>clips = [\<lparr>clip_label = ''horn'', clip_path = ''/sounds/horn.wav'', clip_hotkey = ''Ctrl+1''\<rparr>,
               \<lparr>clip_label = ''bell'', clip_path = ''/sounds/bell.wav'', clip_hotkey = []\<rparr>],
      selected_index = Some 1,
      selected_input_source = [],
      push_to_talk_enabled = True,
      ptt_hotkey = ''Alt+2'',
      ptt_pressed = False,
      global_hotkeys_active = False,
      global_hotkeys = init_hotkey_manager,
      last_hotkey_conflicts = [],
      bound_hotkeys = [],
      router = init_audio_router healthy_server,
      status_text = [],
      dialogs = [],
      router_calls = [],
      tk_calls = [],
      written = []\<rparr>"

definition talk_app :: "pa_server app" where
  \<comment> \<open>an input source is selected, and the server refuses to unload the loopback of the
      microphone already routed\<close>
  "talk_app = idle_app\<lparr>selected_input_source := '' mic1 '', router := init_audio_router stuck_server\<rparr>"

section \<open>Verified properties\<close>

subsection \<open>The hotkey manager\<close>

text \<open>
  C10: \<open>register\<close> on a manager that is not running, or has no display connection or
  no root window, returns the empty conflict list and leaves the manager as it was: its
  binding table, its recorded grabs and the requests sent to the display (no grab, no
  ungrab) are unchanged. A registration that grabs every chord returns the same empty list.
\<close>

theorem register_not_running_noop:
  "\<not> running hk \<or> display hk = None \<or> root hk = None \<Longrightarrow>
     register x hk hotkey_actions = (Inr [], hk)"
  by (auto simp: register_def)

theorem register_not_running_noop_witness:
  "register demo_backend (init_hotkey_manager :: nat hotkey_manager) [(0, ''Alt+1'')]
     = (Inr [], init_hotkey_manager)
   \<and> fst (register demo_backend demo_manager [(0::nat, ''Alt+1'')]) = Inr []"
proof -
  have h: "\<not> running (init_hotkey_manager :: nat hotkey_manager)
      \<or> display (init_hotkey_manager :: nat hotkey_manager) = None
      \<or> root (init_hotkey_manager :: nat hotkey_manager) = None"
    by (simp add: init_hotkey_manager_def)
  have a: "register demo_backend (init_hotkey_manager :: nat hotkey_manager) [(0, ''Alt+1'')]
      = (Inr [], init_hotkey_manager)"
    by (rule register_not_running_noop [OF h])
  have b: "fst (register demo_backend demo_manager [(0::nat, ''Alt+1'')]) = Inr []"
    by code_simp
  from a b show ?thesis by simp
qed

text \<open>
  C9: on a stopped manager (not running, no display connection, no root window), when
  the X library is not importable or opening the display raises, \<open>start\<close> returns False and
  leaves every field as it was: the manager is still not running, has no display
  connection, and \<open>start\<close> has stored no thread in it. No exception leaves \<open>start\<close>: the
  whole body is inside \<open>try\<close>/\<open>except Exception\<close>.
\<close>

theorem start_degraded:
  assumes "\<not> running hk" and "display hk = None" and "root hk = None"
    and "\<not> xlib_available x \<or> (\<exists>e. open_display x = Inl e)"
  shows "start x hk = (Inr False, hk)"
  using assms by (auto simp: start_def start_body_def try_except_def)

theorem start_degraded_witness:
  "\<not> running (init_hotkey_manager :: nat hotkey_manager)
   \<and> open_display no_backend = Inl ConnectionClosedError
   \<and> start no_backend (init_hotkey_manager :: nat hotkey_manager) = (Inr False, init_hotkey_manager)
   \<and> thread (snd (start no_backend (init_hotkey_manager :: nat hotkey_manager))) = None"
proof -
  have h: "\<not> running (init_hotkey_manager :: nat hotkey_manager)"
    "display (init_hotkey_manager :: nat hotkey_manager) = None"
    "root (init_hotkey_manager :: nat hotkey_manager) = None"
    "\<not> xlib_available no_backend \<or> (\<exists>e. open_display no_backend = Inl e)"
    by (simp_all add: init_hotkey_manager_def no_backend_def)
  from start_degraded [OF h] h show ?thesis
    by (simp add: init_hotkey_manager_def no_backend_def)
qed

lemma swallow_ungrab_key [simp]:
  "swallow (ungrab_key x km) hk = hk\<lparr>sent := sent hk @ [UngrabKey (fst km) (snd km)]\<rparr>"
  by (simp add: swallow_def try_except_def ungrab_key_def raise_or_return_def split: option.splits)

lemma swallow_flush [simp]:
  "swallow (flush x) hk = hk\<lparr>sent := sent hk @ [Flush]\<rparr>"
  by (simp add: swallow_def try_except_def flush_def raise_or_return_def split: option.splits)

lemma swallow_close_display [simp]:
  "swallow (close_display x) hk = hk\<lparr>sent := sent hk @ [CloseDisplay]\<rparr>"
  by (simp add: swallow_def try_except_def close_display_def raise_or_return_def split: option.splits)

lemma foldl_ungrab:
  "foldl (\<lambda>hk km. hk\<lparr>sent := sent hk @ [UngrabKey (fst km) (snd km)]\<rparr>) hk kms =
     hk\<lparr>sent := sent hk @ map (\<lambda>(keycode, m). UngrabKey keycode m) kms\<rparr>"
  by (induction kms arbitrary: hk) (simp_all add: case_prod_beta)

lemma unregister_all_eq:
  "unregister_all x hk =
     (if display hk = None \<or> root hk = None then hk
      else hk\<lparr>sent := sent hk @ map (\<lambda>(keycode, m). UngrabKey keycode m) (registered hk) @ [Flush],
              registered := []\<rparr>)"
  by (simp add: unregister_all_def foldl_ungrab Let_def)

lemma grab_variant_step:
  "grab_variant x keycode base_mask (hk, b) e =
     (if grab_fails x keycode (base_mask OR e)
      then (hk\<lparr>sent := sent hk @ [GrabKey keycode (base_mask OR e)]\<rparr>, b)
      else (hk\<lparr>sent := sent hk @ [GrabKey keycode (base_mask OR e)],
               refused := refused hk @
                  (if held_elsewhere x keycode (base_mask OR e) then [(keycode, base_mask OR e)] else []),
               registered := registered hk @ [(keycode, base_mask OR e)]\<rparr>, True))"
  by (auto simp: grab_variant_def grab_body_def grab_key_def sync_def try_except_def
      raise_or_return_def grab_fails_def Let_def split: option.splits)

lemma foldl_grab_variant:
  "foldl (grab_variant x keycode base_mask) (hk, b) es =
     (hk\<lparr>sent := sent hk @ map (\<lambda>e. GrabKey keycode (base_mask OR e)) es,
         refused := refused hk @
            map (Pair keycode) (filter (\<lambda>m. \<not> grab_fails x keycode m \<and> held_elsewhere x keycode m)
               (map (\<lambda>e. base_mask OR e) es)),
         registered := registered hk @
            map (Pair keycode) (filter (\<lambda>m. \<not> grab_fails x keycode m) (map (\<lambda>e. base_mask OR e) es))\<rparr>,
      b \<or> (\<exists>e \<in> set es. \<not> grab_fails x keycode (base_mask OR e)))"
proof (induction es arbitrary: hk b)
  case Nil
  then show ?case by simp
next
  case (Cons e es)
  show ?case
    unfolding foldl.simps grab_variant_step
    by (cases "grab_fails x keycode (base_mask OR e)") (simp_all add: Cons.IH)
qed

lemma register_one_eq:
  "register_one x (hk, conflicts) (action, hotkey) =
     (hk\<lparr>sent := sent hk @ entry_grabs x hotkey,
         refused := refused hk @ refused_pairs x hotkey,
         registered := registered hk @ granted_pairs x hotkey,
         bindings := enter_binding x (bindings hk) (action, hotkey)\<rparr>,
      conflicts @ (if is_conflict x hotkey then [hotkey] else []))"
  by (auto simp: register_one_def foldl_grab_variant entry_grabs_def granted_pairs_def
      refused_pairs_def
      enter_binding_def is_conflict_def chord_key_def any_granted_def grab_masks_def Let_def
      split: option.splits prod.splits)

lemma foldl_register_one:
  "foldl (register_one x) (hk, conflicts) acts =
     (hk\<lparr>sent := sent hk @ concat (map (entry_grabs x \<circ> snd) acts),
         refused := refused hk @ concat (map (refused_pairs x \<circ> snd) acts),
         registered := registered hk @ concat (map (granted_pairs x \<circ> snd) acts),
         bindings := foldl (enter_binding x) (bindings hk) acts\<rparr>,
      conflicts @ filter (is_conflict x) (map snd acts))"
proof (induction acts arbitrary: hk conflicts)
  case Nil
  then show ?case by simp
next
  case (Cons a acts)
  obtain action hotkey where a: "a = (action, hotkey)" by (cases a)
  show ?case
    by (simp add: a register_one_eq Cons.IH)
qed

lemma foldl_enter_binding:
  "foldl (enter_binding x) tab acts k =
     (let es = filter (\<lambda>e. chord_key x (snd e) = Some k \<and> any_granted x k) acts
      in if es = [] then tab k else Some (fst (last es)))"
proof (induction acts rule: rev_induct)
  case Nil
  then show ?case by simp
next
  case (snoc a acts)
  show ?case
  proof (cases "chord_key x (snd a) = Some k \<and> any_granted x k")
    case True
    then show ?thesis
      by (simp add: enter_binding_def)
  next
    case False
    then have "enter_binding x (foldl (enter_binding x) tab acts) a k = foldl (enter_binding x) tab acts k"
      by (auto simp: enter_binding_def split: option.splits)
    with False show ?thesis
      by (simp add: snoc.IH)
  qed
qed

lemma register_running_eq:
  assumes "running hk" "display hk \<noteq> None" "root hk \<noteq> None"
  shows "register x hk acts =
     (Inr (filter (is_conflict x) (map snd acts)),
      hk\<lparr>sent := sent hk @ map (\<lambda>(keycode, m). UngrabKey keycode m) (registered hk) @ [Flush]
                 @ concat (map (entry_grabs x \<circ> snd) acts) @ [Flush],
         refused := refused hk @ concat (map (refused_pairs x \<circ> snd) acts),
         registered := concat (map (granted_pairs x \<circ> snd) acts),
         bindings := foldl (enter_binding x) Map.empty acts\<rparr>)"
proof -
  have u: "unregister_all x hk =
      hk\<lparr>sent := sent hk @ map (\<lambda>(keycode, m). UngrabKey keycode m) (registered hk) @ [Flush],
         registered := []\<rparr>"
    using assms by (auto simp: unregister_all_eq)
  have go: "\<not> (\<not> running hk \<or> display hk = None \<or> root hk = None)"
    using assms by simp
  show ?thesis
    unfolding register_def
    by (simp only: go if_False Let_def u foldl_register_one) simp
qed

lemma register_variants_when_raising:
  assumes "running hk" and "display hk \<noteq> None" and "root hk \<noteq> None"
    and "(action, hotkey) \<in> set hotkey_actions"
    and "hotkey_to_parts hotkey = Some (mods, key_name)"
    and "keysym_to_keycode x key_name = Some keycode"
    and "register x hk hotkey_actions = (Inr conflicts, hk')"
  shows "registered hk' = concat (map (granted_pairs x \<circ> snd) hotkey_actions)"
    and "(\<exists>m \<in> set (grab_masks (modifier_mask mods)). \<not> grab_fails x keycode m) \<Longrightarrow>
         hotkey \<notin> set conflicts \<and> bindings hk' (keycode, modifier_mask mods) \<noteq> None"
    and "(\<forall>m \<in> set (grab_masks (modifier_mask mods)). grab_fails x keycode m) \<Longrightarrow>
         hotkey \<in> set conflicts \<and> bindings hk' (keycode, modifier_mask mods) = None"
proof -
  let ?k = "(keycode, modifier_mask mods)"
  have key: "chord_key x hotkey = Some ?k"
    using assms(5,6) by (simp add: chord_key_def)
  have reg: "conflicts = filter (is_conflict x) (map snd hotkey_actions)"
    and hk': "hk' = hk\<lparr>sent := sent hk @ map (\<lambda>(keycode, m). UngrabKey keycode m) (registered hk) @ [Flush]
                 @ concat (map (entry_grabs x \<circ> snd) hotkey_actions) @ [Flush],
         refused := refused hk @ concat (map (refused_pairs x \<circ> snd) hotkey_actions),
         registered := concat (map (granted_pairs x \<circ> snd) hotkey_actions),
         bindings := foldl (enter_binding x) Map.empty hotkey_actions\<rparr>"
    using assms(7) register_running_eq [OF assms(1-3), of x hotkey_actions] by simp_all
  show "registered hk' = concat (map (granted_pairs x \<circ> snd) hotkey_actions)"
    by (simp add: hk')
  have tab: "bindings hk' ?k =
     (let es = filter (\<lambda>e. chord_key x (snd e) = Some ?k \<and> any_granted x ?k) hotkey_actions
      in if es = [] then None else Some (fst (last es)))"
    by (simp add: hk' foldl_enter_binding)
  show "hotkey \<notin> set conflicts \<and> bindings hk' ?k \<noteq> None"
    if g: "\<exists>m \<in> set (grab_masks (modifier_mask mods)). \<not> grab_fails x keycode m"
  proof -
    from g have ag: "any_granted x ?k" by (simp add: any_granted_def)
    have "\<not> is_conflict x hotkey"
      using ag by (simp add: is_conflict_def key)
    then have a: "hotkey \<notin> set conflicts" by (simp add: reg)
    have "filter (\<lambda>e. chord_key x (snd e) = Some ?k) hotkey_actions \<noteq> []"
      using assms(4) key by (auto simp: filter_empty_conv intro!: bexI[of _ "(action, hotkey)"])
    then have "bindings hk' ?k \<noteq> None"
      using ag by (simp add: tab)
    with a show ?thesis by simp
  qed
  show "hotkey \<in> set conflicts \<and> bindings hk' ?k = None"
    if d: "\<forall>m \<in> set (grab_masks (modifier_mask mods)). grab_fails x keycode m"
  proof -
    from d have ag: "\<not> any_granted x ?k" by (simp add: any_granted_def)
    have "is_conflict x hotkey"
      using ag assms(5) by (simp add: is_conflict_def key)
    then have a: "hotkey \<in> set conflicts"
      using assms(4) by (force simp: reg)
    have "bindings hk' ?k = None"
      using ag by (simp add: tab)
    with a show ?thesis by simp
  qed
qed

text \<open>
  C5, at a refused grab. On a running manager, \<open>register\<close> sends, for a binding whose chord
  parses and whose base key resolves to a keycode, grab requests for that keycode under
  exactly four masks, in this order: the base mask, base with Lock, base with Mod2, base
  with Lock and Mod2. The loop skips a variant only when \<open>grab_key\<close> or \<open>sync\<close> raises
  (\<open>register_variants_when_raising\<close>). When another client holds all four grabs the server
  refuses each of them, but the refusal goes to the error handler of the display and no call
  raises, so the branch \<open>except xerror.BadAccess\<close> is not taken: every one of the four
  refused pairs is recorded in \<open>registered\<close>, the chord is not in the returned conflict
  list, and the table holds an action under (keycode, base mask), the action of the last
  binding of the list with that key.
\<close>

theorem register_refused_grabs_kept:
  assumes "running hk" and "display hk \<noteq> None" and "root hk \<noteq> None"
    and "(action, hotkey) \<in> set hotkey_actions"
    and "hotkey_to_parts hotkey = Some (mods, key_name)"
    and "keysym_to_keycode x key_name = Some keycode"
    and "\<forall>m \<in> set (grab_masks (modifier_mask mods)).
           held_elsewhere x keycode m \<and> grab_key_raises x keycode m = None
           \<and> sync_raises x keycode m = None"
    and "register x hk hotkey_actions = (Inr conflicts, hk')"
  shows "entry_grabs x hotkey =
        [GrabKey keycode (modifier_mask mods),
         GrabKey keycode (modifier_mask mods OR LockMask),
         GrabKey keycode (modifier_mask mods OR Mod2Mask),
         GrabKey keycode (modifier_mask mods OR (LockMask OR Mod2Mask))]
    \<and> sent hk' = sent (unregister_all x hk) @ concat (map (entry_grabs x \<circ> snd) hotkey_actions) @ [Flush]
    \<and> (\<forall>m \<in> set (grab_masks (modifier_mask mods)).
          (keycode, m) \<in> set (refused hk') \<and> (keycode, m) \<in> set (registered hk'))
    \<and> hotkey \<notin> set conflicts
    \<and> bindings hk' (keycode, modifier_mask mods) =
           Some (fst (last (filter (\<lambda>e. chord_key x (snd e) = Some (keycode, modifier_mask mods))
                              hotkey_actions)))"
proof -
  let ?k = "(keycode, modifier_mask mods)"
  have key: "chord_key x hotkey = Some ?k"
    using assms(5,6) by (simp add: chord_key_def)
  have nf: "\<not> grab_fails x keycode m" if "m \<in> set (grab_masks (modifier_mask mods))" for m
    using assms(7) that by (simp add: grab_fails_def)
  have held: "held_elsewhere x keycode m" if "m \<in> set (grab_masks (modifier_mask mods))" for m
    using assms(7) that by simp
  have reg: "conflicts = filter (is_conflict x) (map snd hotkey_actions)"
    and hk': "hk' = hk\<lparr>sent := sent hk @ map (\<lambda>(keycode, m). UngrabKey keycode m) (registered hk) @ [Flush]
                 @ concat (map (entry_grabs x \<circ> snd) hotkey_actions) @ [Flush],
         refused := refused hk @ concat (map (refused_pairs x \<circ> snd) hotkey_actions),
         registered := concat (map (granted_pairs x \<circ> snd) hotkey_actions),
         bindings := foldl (enter_binding x) Map.empty hotkey_actions\<rparr>"
    using assms(8) register_running_eq [OF assms(1-3), of x hotkey_actions] by simp_all
  have c1: "entry_grabs x hotkey =
        [GrabKey keycode (modifier_mask mods),
         GrabKey keycode (modifier_mask mods OR LockMask),
         GrabKey keycode (modifier_mask mods OR Mod2Mask),
         GrabKey keycode (modifier_mask mods OR (LockMask OR Mod2Mask))]"
    by (simp add: entry_grabs_def key grab_masks_def lock_variants_def)
  have c2: "sent hk' = sent (unregister_all x hk) @ concat (map (entry_grabs x \<circ> snd) hotkey_actions) @ [Flush]"
    using assms(2,3) by (auto simp: hk' unregister_all_eq)
  have c3: "(keycode, m) \<in> set (refused hk') \<and> (keycode, m) \<in> set (registered hk')"
    if m: "m \<in> set (grab_masks (modifier_mask mods))" for m
  proof -
    have "(keycode, m) \<in> set (refused_pairs x hotkey)"
      using m nf [OF m] held [OF m] by (simp add: refused_pairs_def key)
    then have a: "(keycode, m) \<in> set (refused hk')"
      using assms(4) by (force simp: hk')
    have "(keycode, m) \<in> set (granted_pairs x hotkey)"
      using m nf [OF m] by (simp add: granted_pairs_def key)
    then have "(keycode, m) \<in> set (registered hk')"
      using assms(4) by (force simp: hk')
    with a show ?thesis by simp
  qed
  have "modifier_mask mods \<in> set (grab_masks (modifier_mask mods))"
    by (simp add: grab_masks_def lock_variants_def)
  then have ag: "any_granted x ?k"
    using nf by (auto simp: any_granted_def)
  have "\<not> is_conflict x hotkey"
    using ag by (simp add: is_conflict_def key)
  then have c4: "hotkey \<notin> set conflicts" by (simp add: reg)
  have tab: "bindings hk' ?k =
     (let es = filter (\<lambda>e. chord_key x (snd e) = Some ?k \<and> any_granted x ?k) hotkey_actions
      in if es = [] then None else Some (fst (last es)))"
    by (simp add: hk' foldl_enter_binding)
  have "filter (\<lambda>e. chord_key x (snd e) = Some ?k) hotkey_actions \<noteq> []"
    using assms(4) key by (auto simp: filter_empty_conv intro!: bexI[of _ "(action, hotkey)"])
  then have c5: "bindings hk' ?k = Some (fst (last (filter (\<lambda>e. chord_key x (snd e) = Some ?k) hotkey_actions)))"
    using ag by (simp add: tab)
  from c1 c2 c3 c4 c5 show ?thesis by blast
qed

theorem register_refused_grabs_kept_witness:
  "hotkey_to_parts ''Shift+2'' = Some ({''shift''}, ''2'')
   \<and> keysym_to_keycode demo_backend ''2'' = Some 11
   \<and> grab_masks (modifier_mask {''shift''}) = [1, 3, 17, 19]
   \<and> list_all (held_elsewhere demo_backend 11) [1, 3, 17, 19]
   \<and> fst (register demo_backend demo_manager [(1, ''Shift+2'')]) = Inr []
   \<and> bindings (snd (register demo_backend demo_manager [(1, ''Shift+2'')])) (11, 1) = Some 1
   \<and> registered (snd (register demo_backend demo_manager [(1, ''Shift+2'')]))
        = [(11, 1), (11, 3), (11, 17), (11, 19)]
   \<and> refused (snd (register demo_backend demo_manager [(1, ''Shift+2'')]))
        = [(11, 1), (11, 3), (11, 17), (11, 19)]"
proof -
  let ?acts = "[(1::nat, ''Shift+2'')]"
  have h1: "running demo_manager" and h2: "display demo_manager \<noteq> None"
    and h3: "root demo_manager \<noteq> None"
    by (simp_all add: demo_manager_def)
  have h4: "(1, ''Shift+2'') \<in> set ?acts" by simp
  have h5: "hotkey_to_parts ''Shift+2'' = Some ({''shift''}, ''2'')" by code_simp
  have h6: "keysym_to_keycode demo_backend ''2'' = Some 11" by code_simp
  have gm: "grab_masks (modifier_mask {''shift''}) = [1, 3, 17, 19]" by code_simp
  have h7: "\<forall>m \<in> set (grab_masks (modifier_mask {''shift''})).
           held_elsewhere demo_backend 11 m \<and> grab_key_raises demo_backend 11 m = None
           \<and> sync_raises demo_backend 11 m = None"
    by (simp add: demo_backend_def)
  have c: "fst (register demo_backend demo_manager ?acts) = Inr []" by code_simp
  have h8: "register demo_backend demo_manager ?acts =
      (Inr [], snd (register demo_backend demo_manager ?acts))"
    using c by (simp add: prod_eq_iff)
  have r: "registered (snd (register demo_backend demo_manager ?acts))
        = [(11, 1), (11, 3), (11, 17), (11, 19)]" by code_simp
  have f: "refused (snd (register demo_backend demo_manager ?acts))
        = [(11, 1), (11, 3), (11, 17), (11, 19)]" by code_simp
  have k: "chord_key demo_backend ''Shift+2'' = Some (11, 1)" by code_simp
  have m: "modifier_mask {''shift''} = 1" by code_simp
  have hd: "list_all (held_elsewhere demo_backend 11) [1, 3, 17, 19]"
    by (simp add: demo_backend_def)
  from register_refused_grabs_kept [OF h1 h2 h3 h4 h5 h6 h7 h8] c r f gm h5 h6 hd
  show ?thesis
    by (simp add: k m)
qed

subsection \<open>Splitting, stripping and lower-casing\<close>

lemma split_on_nonempty [simp]: "split_on sep s \<noteq> []"
  by (induction s) (auto split: list.splits)

lemma split_on_no_sep: "sep \<notin> set s \<Longrightarrow> split_on sep s = [s]"
  by (induction s) auto

lemma split_on_append: "split_on sep (a @ sep # b) = split_on sep a @ split_on sep b"
  by (induction a) (auto split: list.splits)

lemma split_on_snoc:
  "c \<noteq> sep \<Longrightarrow> split_on sep (s @ [c]) = butlast (split_on sep s) @ [last (split_on sep s) @ [c]]"
  by (induction s) (auto split: list.splits)

lemma split_on_join:
  "ts \<noteq> [] \<Longrightarrow> split_on sep (join [sep] ts) = concat (map (split_on sep) ts)"
proof (induction ts)
  case Nil
  then show ?case by simp
next
  case (Cons t ts)
  show ?case
  proof (cases ts)
    case Nil
    then show ?thesis by simp
  next
    case (Cons u us)
    with Cons.IH show ?thesis by (simp add: split_on_append)
  qed
qed

lemma strip_Nil [simp]: "strip [] = []"
  by (simp add: strip_def)

lemma strip_space_Cons: "is_space c \<Longrightarrow> strip (c # s) = strip s"
  by (simp add: strip_def)

lemma dropWhile_all: "\<forall>x \<in> set xs. P x \<Longrightarrow> dropWhile P xs = []"
  by (induction xs) auto

lemma strip_space_snoc:
  assumes "is_space c"
  shows "strip (s @ [c]) = strip s"
proof (cases "\<forall>x \<in> set s. is_space x")
  case True
  then have a: "dropWhile is_space s = []" by (rule dropWhile_all)
  from True assms have b: "dropWhile is_space (s @ [c]) = []" by (intro dropWhile_all) simp
  show ?thesis by (simp only: strip_def a b)
next
  case False
  then have "dropWhile is_space (s @ [c]) = dropWhile is_space s @ [c]"
    by (simp add: dropWhile_append)
  with assms show ?thesis by (simp add: strip_def)
qed

lemma last_dropWhile: "dropWhile P xs \<noteq> [] \<Longrightarrow> last (dropWhile P xs) = last xs"
  by (metis last_appendR takeWhile_dropWhile_id)

lemma strip_ends:
  assumes "strip s \<noteq> []"
  shows "\<not> is_space (hd (strip s)) \<and> \<not> is_space (last (strip s))"
proof -
  let ?t = "dropWhile is_space s"
  let ?u = "dropWhile is_space (rev ?t)"
  have s: "strip s = rev ?u" by (simp add: strip_def)
  with assms have u: "?u \<noteq> []" by simp
  have t: "?t \<noteq> []"
  proof
    assume "?t = []"
    then have "?u = []" by (simp only: rev.simps dropWhile.simps)
    with u show False by simp
  qed
  have "last (strip s) = hd ?u" using u by (simp add: s last_rev)
  moreover have "\<not> is_space (hd ?u)" using u by (rule hd_dropWhile)
  moreover have "hd (strip s) = last ?u" using u by (simp add: s hd_rev)
  moreover have "last ?u = last (rev ?t)" using u by (rule last_dropWhile)
  moreover have "last (rev ?t) = hd ?t" using t by (simp add: last_rev)
  moreover have "\<not> is_space (hd ?t)" using t by (rule hd_dropWhile)
  ultimately show ?thesis by simp
qed

lemma strip_id:
  assumes "s \<noteq> []" and "\<not> is_space (hd s)" and "\<not> is_space (last s)"
  shows "strip s = s"
proof -
  have a: "dropWhile is_space s = s" using assms(1,2) by (cases s) simp_all
  have "rev s \<noteq> []" "\<not> is_space (hd (rev s))" using assms(1,3) by (simp_all add: hd_rev)
  then have b: "dropWhile is_space (rev s) = rev s" by (cases "rev s") simp_all
  show ?thesis by (simp add: strip_def a b)
qed

lemma strip_idem [simp]: "strip (strip s) = strip s"
  by (cases "strip s = []") (auto simp: strip_id strip_ends)

lemma plus_not_space: "\<not> is_space CHR ''+''"
  by (simp add: is_space_def)

lemma tokens_space_Cons: "is_space c \<Longrightarrow> hotkey_tokens (c # s) = hotkey_tokens s"
proof -
  assume c: "is_space c"
  then have "c \<noteq> CHR ''+''" using plus_not_space by auto
  then show ?thesis
    using c by (cases "split_on CHR ''+'' s") (simp_all add: hotkey_tokens_def strip_space_Cons)
qed

lemma tokens_space_snoc: "is_space c \<Longrightarrow> hotkey_tokens (s @ [c]) = hotkey_tokens s"
proof -
  assume c: "is_space c"
  then have ne: "c \<noteq> CHR ''+''" using plus_not_space by auto
  obtain ws w where sp: "split_on CHR ''+'' s = ws @ [w]"
    using split_on_nonempty [of "CHR ''+''" s] by (cases "split_on CHR ''+'' s" rule: rev_cases) auto
  have "map strip (split_on CHR ''+'' (s @ [c])) = map strip (split_on CHR ''+'' s)"
    by (simp add: split_on_snoc ne sp strip_space_snoc c)
  then show ?thesis by (simp add: hotkey_tokens_def)
qed

lemma tokens_dropWhile: "hotkey_tokens (dropWhile is_space s) = hotkey_tokens s"
  by (induction s) (simp_all add: tokens_space_Cons)

lemma tokens_rev_dropWhile: "hotkey_tokens (rev (dropWhile is_space (rev s))) = hotkey_tokens s"
  by (induction s rule: rev_induct) (simp_all add: tokens_space_snoc)

lemma tokens_strip: "hotkey_tokens (strip s) = hotkey_tokens s"
  by (simp add: strip_def tokens_rev_dropWhile tokens_dropWhile)

subsection \<open>The chord parser\<close>

lemma add_modifier_eq:
  "add_modifier m acc =
     (case acc of None \<Rightarrow> None
      | Some mods \<Rightarrow> (case modifier_name m of None \<Rightarrow> None | Some n \<Rightarrow> Some (insert n mods)))"
  by (cases acc) (simp_all add: modifier_name_def Let_def)

lemma foldl_add_modifier_None: "foldl (\<lambda>acc m. add_modifier m acc) None ms = None"
  by (induction ms) simp_all

lemma foldl_add_modifier:
  "foldl (\<lambda>acc m. add_modifier m acc) (Some S) ms =
     (if \<forall>m \<in> set ms. modifier_name m \<noteq> None
      then Some (S \<union> (\<lambda>m. the (modifier_name m)) ` set ms) else None)"
proof (induction ms arbitrary: S)
  case Nil
  then show ?case by simp
next
  case (Cons m ms)
  show ?case
  proof (cases "modifier_name m")
    case None
    then have "add_modifier m (Some S) = None" by (simp add: add_modifier_eq)
    then have "foldl (\<lambda>acc m. add_modifier m acc) (Some S) (m # ms) = None"
      by (simp only: foldl.simps foldl_add_modifier_None)
    with None show ?thesis by simp
  next
    case (Some n)
    then have "add_modifier m (Some S) = Some (insert n S)" by (simp add: add_modifier_eq)
    then have "foldl (\<lambda>acc m. add_modifier m acc) (Some S) (m # ms) =
        foldl (\<lambda>acc m. add_modifier m acc) (Some (insert n S)) ms"
      by (simp only: foldl.simps)
    with Some show ?thesis by (simp add: Cons.IH)
  qed
qed

lemma tokens_empty_of_strip: "strip s = [] \<Longrightarrow> hotkey_tokens s = []"
proof -
  assume "strip s = []"
  then have "hotkey_tokens (strip s) = []" by (simp add: hotkey_tokens_def)
  then show ?thesis by (simp add: tokens_strip)
qed

lemma hotkey_to_parts_eq:
  "hotkey_to_parts s =
     (let parts = hotkey_tokens s
      in if parts = [] then None
         else if \<forall>m \<in> set (butlast parts). modifier_name m \<noteq> None
              then Some ((\<lambda>m. the (modifier_name m)) ` set (butlast parts), lower (last parts))
              else None)"
proof (cases "strip s = []")
  case True
  then show ?thesis by (simp add: hotkey_to_parts_def tokens_empty_of_strip)
next
  case False
  then show ?thesis
    by (auto simp: hotkey_to_parts_def Let_def tokens_strip foldl_add_modifier)
qed

lemma tokens_join:
  "ts \<noteq> [] \<Longrightarrow> hotkey_tokens (join ''+'' ts) = concat (map hotkey_tokens ts)"
  by (simp add: hotkey_tokens_def [abs_def] split_on_join map_concat filter_concat comp_def)

lemma split_on_parts_no_sep: "w \<in> set (split_on sep s) \<Longrightarrow> sep \<notin> set w"
  by (induction s arbitrary: w) (auto split: if_splits list.splits)

lemma set_strip: "set (strip s) \<subseteq> set s"
proof -
  have "set (strip s) \<subseteq> set (dropWhile is_space s)"
    unfolding strip_def set_rev by (metis set_rev set_dropWhileD subsetI)
  also have "\<dots> \<subseteq> set s" by (auto dest: set_dropWhileD)
  finally show ?thesis .
qed

lemma token_props:
  assumes "t \<in> set (hotkey_tokens s)"
  shows "t \<noteq> []" and "strip t = t" and "CHR ''+'' \<notin> set t"
proof -
  from assms obtain p where p: "p \<in> set (split_on CHR ''+'' s)" and t: "t = strip p" and ne: "t \<noteq> []"
    by (auto simp: hotkey_tokens_def)
  show "t \<noteq> []" by (rule ne)
  show "strip t = t" by (simp add: t)
  from split_on_parts_no_sep [OF p] set_strip [of p] show "CHR ''+'' \<notin> set t"
    by (auto simp: t)
qed

lemma tokens_of_token:
  assumes "t \<noteq> []" and "strip t = t" and "CHR ''+'' \<notin> set t"
  shows "hotkey_tokens t = [t]"
  using assms by (simp add: hotkey_tokens_def split_on_no_sep)

lemma of_char_lower_char:
  "(of_char (lower_char c) :: nat) =
     (let n = of_char c
      in if (65 \<le> n \<and> n \<le> 90) \<or> (192 \<le> n \<and> n \<le> 222 \<and> n \<noteq> 215) then n + 32 else n)"
  by (auto simp: lower_char_def Let_def)

lemma is_space_lower_char [simp]: "is_space (lower_char c) = is_space c"
  by (auto simp: is_space_def of_char_lower_char Let_def)

lemma lower_char_idem [simp]: "lower_char (lower_char c) = lower_char c"
proof -
  have "(of_char (lower_char (lower_char c)) :: nat) = of_char (lower_char c)"
    by (auto simp: of_char_lower_char Let_def)
  then have "char_of (of_char (lower_char (lower_char c)) :: nat) = char_of (of_char (lower_char c) :: nat)"
    by simp
  then show ?thesis by simp
qed

lemma lower_char_plus: "lower_char c = CHR ''+'' \<longleftrightarrow> c = CHR ''+''"
proof -
  have "(of_char (lower_char c) :: nat) = 43 \<longleftrightarrow> (of_char c :: nat) = 43"
    by (auto simp: of_char_lower_char Let_def)
  moreover have "(of_char d :: nat) = 43 \<longleftrightarrow> d = CHR ''+''" for d
  proof
    assume "(of_char d :: nat) = 43"
    then have "char_of (of_char d :: nat) = char_of (43 :: nat)" by simp
    moreover have "char_of (43 :: nat) = CHR ''+''" by code_simp
    ultimately show "d = CHR ''+''" by simp
  next
    assume "d = CHR ''+''"
    then show "(of_char d :: nat) = 43" by simp
  qed
  ultimately show ?thesis by simp
qed

lemma lower_idem [simp]: "lower (lower s) = lower s"
  by (simp add: lower_def)

lemma lower_token:
  assumes "t \<noteq> []" and "strip t = t" and "CHR ''+'' \<notin> set t"
  shows "lower t \<noteq> []" and "strip (lower t) = lower t" and "CHR ''+'' \<notin> set (lower t)"
proof -
  show ne: "lower t \<noteq> []" using assms(1) by (simp add: lower_def)
  from assms(1,2) have "strip t \<noteq> []" by simp
  from strip_ends [OF this] assms(2)
  have e: "\<not> is_space (hd t)" "\<not> is_space (last t)" by simp_all
  have "hd (lower t) = lower_char (hd t)" "last (lower t) = lower_char (last t)"
    using assms(1) by (simp_all add: lower_def hd_map last_map)
  with e have "\<not> is_space (hd (lower t))" "\<not> is_space (last (lower t))" by simp_all
  with ne show "strip (lower t) = lower t" by (rule strip_id)
  show "CHR ''+'' \<notin> set (lower t)"
  proof
    assume "CHR ''+'' \<in> set (lower t)"
    then obtain x where "x \<in> set t" "lower_char x = CHR ''+''" by (auto simp: lower_def)
    then have "CHR ''+'' \<in> set t" by (simp add: lower_char_plus)
    with assms(3) show False by simp
  qed
qed

lemma modifier_name_range:
  "modifier_name m = Some n \<Longrightarrow> n \<in> {''control'', ''alt'', ''shift'', ''super''}"
  by (auto simp: modifier_name_def Let_def split: if_splits)

lemma modifier_name_display:
  "modifier_name ''Ctrl'' = Some ''control''" "modifier_name ''Alt'' = Some ''alt''"
  "modifier_name ''Shift'' = Some ''shift''" "modifier_name ''Super'' = Some ''super''"
  by code_simp+

lemma tokens_display:
  "hotkey_tokens ''Ctrl'' = [''Ctrl'']" "hotkey_tokens ''Alt'' = [''Alt'']"
  "hotkey_tokens ''Shift'' = [''Shift'']" "hotkey_tokens ''Super'' = [''Super'']"
  by code_simp+

lemma chord_order_independent:
  assumes "mset ms = mset ms'" and "hotkey_tokens k \<noteq> []"
  shows "hotkey_to_parts (join ''+'' (ms @ [k])) = hotkey_to_parts (join ''+'' (ms' @ [k]))"
proof -
  have s: "set ms = set ms'" using assms(1) by (rule mset_eq_setD)
  have t: "hotkey_tokens (join ''+'' (xs @ [k])) = concat (map hotkey_tokens xs) @ hotkey_tokens k" for xs
    by (simp add: tokens_join)
  have l: "last (concat (map hotkey_tokens xs) @ hotkey_tokens k) = last (hotkey_tokens k)" for xs
    using assms(2) by simp
  have b: "set (butlast (concat (map hotkey_tokens xs) @ hotkey_tokens k))
      = (\<Union>x \<in> set xs. set (hotkey_tokens x)) \<union> set (butlast (hotkey_tokens k))" for xs
    using assms(2) by (simp add: butlast_append)
  show ?thesis
    unfolding hotkey_to_parts_eq t Let_def l b s using assms(2) by simp
qed

lemma chord_roundtrip:
  assumes "hotkey_to_parts s = Some c"
  shows "hotkey_to_parts (serialize_chord c) = Some c"
proof -
  let ?parts = "hotkey_tokens s"
  from assms have ne: "?parts \<noteq> []"
    and ok: "\<forall>m \<in> set (butlast ?parts). modifier_name m \<noteq> None"
    and c: "c = ((\<lambda>m. the (modifier_name m)) ` set (butlast ?parts), lower (last ?parts))"
    by (auto simp: hotkey_to_parts_eq Let_def split: if_splits)
  define mods where "mods = fst c"
  define key where "key = snd c"
  have range: "mods \<subseteq> {''control'', ''alt'', ''shift'', ''super''}"
    using ok modifier_name_range by (fastforce simp: mods_def c)
  have "last ?parts \<in> set ?parts" using ne by simp
  from token_props [OF this] have "lower (last ?parts) \<noteq> []"
    "strip (lower (last ?parts)) = lower (last ?parts)" "CHR ''+'' \<notin> set (lower (last ?parts))"
    by (simp_all add: lower_token)
  then have k: "hotkey_tokens key = [key]" and lk: "lower key = key"
    by (simp_all add: key_def c tokens_of_token)
  define toks where "toks = (if ''control'' \<in> mods then [''Ctrl''] else []) @
        (if ''alt'' \<in> mods then [''Alt''] else []) @
        (if ''shift'' \<in> mods then [''Shift''] else []) @
        (if ''super'' \<in> mods then [''Super''] else [])"
  have ser: "serialize_chord c = join ''+'' (toks @ [key])"
    by (simp add: serialize_chord_def mods_def key_def toks_def)
  have "concat (map hotkey_tokens toks) = toks"
    by (simp add: toks_def tokens_display)
  then have tk: "hotkey_tokens (join ''+'' (toks @ [key])) = toks @ [key]"
    by (simp add: tokens_join k)
  have nm: "(\<lambda>m. the (modifier_name m)) ` set toks = mods"
    using range by (auto simp: toks_def modifier_name_display)
  have all: "\<forall>m \<in> set toks. modifier_name m \<noteq> None"
    by (auto simp: toks_def modifier_name_display)
  have "hotkey_to_parts (serialize_chord c) = Some (mods, key)"
    unfolding ser hotkey_to_parts_eq tk Let_def using all nm lk by simp
  then show ?thesis by (simp add: mods_def key_def)
qed

text \<open>
  C7: a chord string that the parser accepts, once serialized, parses again to the same
  pair of modifier set and base key; the parse of a chord written as modifier tokens joined
  to a base-key token by \<open>+\<close> does not depend on the order of the modifier tokens (the base
  key token must hold a non-blank token); "Alt+Ctrl+M" and "Ctrl+Alt+M" parse to the same
  pair; "Shift+Alt+3" parses to the modifiers shift and alt with the base key 3.
\<close>

theorem chord_parse_roundtrip:
  "(hotkey_to_parts s = Some c \<longrightarrow> hotkey_to_parts (serialize_chord c) = Some c)
   \<and> (mset ms = mset ms' \<and> hotkey_tokens k \<noteq> [] \<longrightarrow>
        hotkey_to_parts (join ''+'' (ms @ [k])) = hotkey_to_parts (join ''+'' (ms' @ [k])))
   \<and> hotkey_to_parts ''Alt+Ctrl+M'' = hotkey_to_parts ''Ctrl+Alt+M''
   \<and> hotkey_to_parts ''Ctrl+Alt+M'' = Some ({''control'', ''alt''}, ''m'')
   \<and> hotkey_to_parts ''Shift+Alt+3'' = Some ({''shift'', ''alt''}, ''3'')"
proof -
  have a: "hotkey_to_parts ''Alt+Ctrl+M'' = hotkey_to_parts ''Ctrl+Alt+M''" by code_simp
  have b: "hotkey_to_parts ''Ctrl+Alt+M'' = Some ({''control'', ''alt''}, ''m'')" by code_simp
  have c: "hotkey_to_parts ''Shift+Alt+3'' = Some ({''shift'', ''alt''}, ''3'')" by code_simp
  from a b c chord_roundtrip chord_order_independent show ?thesis by blast
qed

theorem chord_parse_roundtrip_witness:
  "hotkey_to_parts ''Ctrl+Alt+M'' = Some ({''control'', ''alt''}, ''m'')
   \<and> serialize_chord ({''control'', ''alt''}, ''m'') = ''Ctrl+Alt+m''
   \<and> hotkey_to_parts (serialize_chord ({''control'', ''alt''}, ''m'')) = Some ({''control'', ''alt''}, ''m'')
   \<and> mset [''Alt'', ''Ctrl''] = mset [''Ctrl'', ''Alt'']
   \<and> hotkey_tokens ''M'' = [''M'']
   \<and> hotkey_to_parts (join ''+'' ([''Alt'', ''Ctrl''] @ [''M'']))
       = hotkey_to_parts (join ''+'' ([''Ctrl'', ''Alt''] @ [''M'']))"
proof -
  have p: "hotkey_to_parts ''Ctrl+Alt+M'' = Some ({''control'', ''alt''}, ''m'')" by code_simp
  have s: "serialize_chord ({''control'', ''alt''}, ''m'') = ''Ctrl+Alt+m''" by code_simp
  have m: "mset [''Alt'', ''Ctrl''] = mset [''Ctrl'', ''Alt'']" by simp
  have t: "hotkey_tokens ''M'' = [''M'']" by code_simp
  from chord_parse_roundtrip [of "''Ctrl+Alt+M''" "({''control'', ''alt''}, ''m'')"
      "[''Alt'', ''Ctrl'']" "[''Ctrl'', ''Alt'']" "''M''"] p s m t
  show ?thesis by simp
qed

subsection \<open>The audio router\<close>

lemma run_cases:
  obtains (raises) e where "exec (env r) cmd = Inl e" "run exec cmd r = (Inl e, r)"
  | (returns) c e' where "exec (env r) cmd = Inr (c, e')"
      "run exec cmd r = (Inr c, r\<lparr>env := e', issued := issued r @ [cmd]\<rparr>)"
  by (cases "exec (env r) cmd") (auto simp: run_def)

lemma run_Inr:
  assumes "run exec cmd r = (Inr c, r')"
  shows "r' = r\<lparr>env := env r', issued := issued r @ [cmd]\<rparr>"
  using assms by (cases rule: run_cases [of exec r cmd]) auto

lemma find_mic_loop_module_Inr:
  assumes "find_mic_loop_module exec r = (Inr found, r')"
  shows "r' = r\<lparr>env := env r', issued := issued r @ [list_modules_cmd]\<rparr>"
  using assms
  by (cases rule: run_cases [of exec r list_modules_cmd])
     (auto simp: find_mic_loop_module_def split: if_splits)

text \<open>
  C8: when \<open>connect_input_source_to_soundpad\<close> finds a mic-passthrough loopback and the
  \<open>unload-module\<close> command for it returns a non-zero exit code, the operation returns
  failure with the message \<open>stderr.strip() or stdout.strip()\<close> of that command (its
  standard error without surrounding whitespace, or its standard output if that is
  empty), and the commands it has run are the module listing and the unload: no
  \<open>load-module\<close> command is issued, and the remembered loopback id is left as it was.
\<close>

theorem connect_aborts_on_unload_failure:
  assumes "find_mic_loop_module exec r = (Inr (Some current), r1)" and "current \<noteq> []"
    and "run exec (unload_cmd current) r1 = (Inr unload, r2)"
    and "returncode unload \<noteq> 0"
  shows "connect_input_source_to_soundpad exec source_name r
           = (Inr (False, if strip (stderr unload) \<noteq> [] then strip (stderr unload)
                          else strip (stdout unload)), r2)
         \<and> issued r2 = issued r @ [list_modules_cmd, unload_cmd current]
         \<and> filter is_load_module [list_modules_cmd, unload_cmd current] = []
         \<and> mic_loop_module_id r2 = mic_loop_module_id r"
proof -
  have a: "connect_input_source_to_soundpad exec source_name r = (Inr (False, failure_message unload), r2)"
    using assms by (simp add: connect_input_source_to_soundpad_def truthy_def)
  from find_mic_loop_module_Inr [OF assms(1)] run_Inr [OF assms(3)]
  have r1: "r1 = r\<lparr>env := env r1, issued := issued r @ [list_modules_cmd]\<rparr>"
    and r2: "r2 = r1\<lparr>env := env r2, issued := issued r1 @ [unload_cmd current]\<rparr>" by simp_all
  have i: "issued r2 = issued r @ [list_modules_cmd, unload_cmd current]"
    by (subst r2, subst r1) simp
  have m: "mic_loop_module_id r2 = mic_loop_module_id r"
    by (subst r2, subst r1) simp
  have n: "filter is_load_module [list_modules_cmd, unload_cmd current] = []"
    by (simp add: is_load_module_def list_modules_cmd_def unload_cmd_def)
  from a i m n show ?thesis by (simp add: failure_message_def)
qed

theorem connect_aborts_on_unload_failure_witness:
  "fst (find_mic_loop_module pactl (init_audio_router stuck_server)) = Inr (Some ''2'')
   \<and> fst (connect_input_source_to_soundpad pactl ''mic2'' (init_audio_router stuck_server))
       = Inr (False, ''Failure: Module initialization failed'')
   \<and> issued (snd (connect_input_source_to_soundpad pactl ''mic2'' (init_audio_router stuck_server)))
       = [list_modules_cmd, unload_cmd ''2'']
   \<and> modules (env (snd (connect_input_source_to_soundpad pactl ''mic2'' (init_audio_router stuck_server))))
       = modules stuck_server"
proof -
  let ?r = "init_audio_router stuck_server"
  let ?r1 = "snd (find_mic_loop_module pactl ?r)"
  let ?u = "run pactl (unload_cmd ''2'') ?r1"
  have f: "fst (find_mic_loop_module pactl ?r) = Inr (Some ''2'')" by code_simp
  then have h1: "find_mic_loop_module pactl ?r = (Inr (Some ''2''), ?r1)"
    by (simp add: prod_eq_iff)
  have h2: "''2'' \<noteq> []" by simp
  have u: "fst ?u = Inr (failed 0 [] (''Failure: Module initialization failed'' @ [NL]))"
    by code_simp
  then have h3: "?u = (Inr (failed 0 [] (''Failure: Module initialization failed'' @ [NL])), snd ?u)"
    by (simp add: prod_eq_iff)
  have h4: "returncode (failed 0 [] (''Failure: Module initialization failed'' @ [NL])) \<noteq> 0"
    by (simp add: failed_def)
  have i: "issued ?r = []" by (simp add: init_audio_router_def)
  have msg: "strip (stderr (failed 0 [] (''Failure: Module initialization failed'' @ [NL])))
      = ''Failure: Module initialization failed''" by code_simp
  have e: "modules (env (snd ?u)) = modules stuck_server" by code_simp
  from connect_aborts_on_unload_failure [OF h1 h2 h3 h4, of "''mic2''"] f i msg e
  show ?thesis by simp
qed

lemma run_total:
  assumes "always_runs exec"
  shows "run exec cmd r =
     (Inr (fst (projr (exec (env r) cmd))),
      r\<lparr>env := snd (projr (exec (env r) cmd)), issued := issued r @ [cmd]\<rparr>)"
proof -
  from assms obtain c e' where "exec (env r) cmd = Inr (c, e')"
    unfolding always_runs_def by blast
  then show ?thesis by (simp add: run_def)
qed

lemma module_id_by_name_returns:
  "always_runs exec \<Longrightarrow> returns (module_id_by_name exec n t r)"
  by (simp add: module_id_by_name_def run_total returns_def)

lemma find_mic_loop_module_returns:
  "always_runs exec \<Longrightarrow> returns (find_mic_loop_module exec r)"
  by (simp add: find_mic_loop_module_def run_total returns_def)

lemma ensure_sink_returns: "always_runs exec \<Longrightarrow> returns (ensure_sink exec r)"
  by (simp add: ensure_sink_def module_id_by_name_def run_total returns_def Let_def)

lemma ensure_source_returns: "always_runs exec \<Longrightarrow> returns (ensure_source exec r)"
  by (simp add: ensure_source_def module_id_by_name_def run_total returns_def Let_def)

lemma ensure_virtual_mic_returns:
  assumes "always_runs exec"
  shows "returns (ensure_virtual_mic exec r)"
proof (cases "ensure_sink exec r")
  case (Pair a r1)
  with ensure_sink_returns [OF assms, of r] obtain v where a: "a = Inr v"
    by (cases a) (simp_all add: returns_def)
  show ?thesis
  proof (cases v)
    case (Some early)
    with Pair a show ?thesis by (simp add: ensure_virtual_mic_def returns_def)
  next
    case None
    obtain b r2 where b: "ensure_source exec r1 = (b, r2)" by (cases "ensure_source exec r1")
    with ensure_source_returns [OF assms, of r1] obtain w where w: "b = Inr w"
      by (cases b) (simp_all add: returns_def)
    from Pair a None b w show ?thesis
      by (cases w) (simp_all add: ensure_virtual_mic_def returns_def)
  qed
qed

lemma ensure_local_monitor_returns: "always_runs exec \<Longrightarrow> returns (ensure_local_monitor exec r)"
  by (simp add: ensure_local_monitor_def module_id_by_name_def run_total returns_def Let_def)

lemma unload_monitor_returns: "always_runs exec \<Longrightarrow> returns (unload_monitor exec r)"
  by (simp add: unload_monitor_def run_total returns_def)

lemma set_mic_mute_returns: "always_runs exec \<Longrightarrow> returns (set_mic_mute exec muted r)"
  by (simp add: set_mic_mute_def run_total returns_def Let_def)

lemma list_input_sources_returns: "always_runs exec \<Longrightarrow> returns (list_input_sources exec r)"
  by (simp add: list_input_sources_def run_total returns_def)

lemma get_default_source_returns: "always_runs exec \<Longrightarrow> returns (get_default_source exec r)"
  by (simp add: get_default_source_def run_total returns_def)

lemma load_mic_loop_returns: "always_runs exec \<Longrightarrow> returns (load_mic_loop exec n r)"
  by (simp add: load_mic_loop_def run_total returns_def)

lemma connect_returns:
  "always_runs exec \<Longrightarrow> returns (connect_input_source_to_soundpad exec n r)"
  using load_mic_loop_returns [of exec n]
  by (simp add: connect_input_source_to_soundpad_def find_mic_loop_module_def run_total)
     (simp add: returns_def)

lemma disconnect_returns:
  "always_runs exec \<Longrightarrow> returns (disconnect_input_source_from_soundpad exec r)"
  by (simp add: disconnect_input_source_from_soundpad_def find_mic_loop_module_def run_total returns_def)

lemma register_conflicts_subset:
  "\<exists>conflicts hk'. register x hk acts = (Inr conflicts, hk') \<and> set conflicts \<subseteq> snd ` set acts"
proof (cases "running hk \<and> display hk \<noteq> None \<and> root hk \<noteq> None")
  case True
  then show ?thesis by (auto simp: register_running_eq)
next
  case False
  then show ?thesis by (auto simp: register_def)
qed

lemma start_outcome:
  "\<exists>hk'. start x hk =
     (Inr (xlib_available x \<and> \<not> running hk \<and> \<not> isl (open_display x)
           \<and> \<not> isl (screen_root x) \<and> thread_start_raises x = None), hk')"
  by (auto simp: start_def start_body_def try_except_def Let_def split: sum.splits option.splits)

lemma stop_outcome: "\<exists>hk'. stop x hk = (Inr (), hk') \<and> \<not> running hk'"
  by (auto simp: stop_def unregister_all_eq Let_def)

text \<open>
  C4, as the code has it: when the control tool can be executed (every invocation
  returns a completed process, whatever its exit code), each of the eight public
  operations of the router returns an outcome value and lets no exception through.
  The router itself catches nothing: \<open>_run\<close> is a bare \<open>subprocess.run\<close>, so with the
  executable missing the operations raise FileNotFoundError. The hotkey manager's operations return an outcome value
  whatever the display backend does, each of its calls that raises being caught by the
  \<open>try\<close> around it: \<open>start\<close> returns the boolean that tells whether the display opened,
  the root window was found and the thread started, \<open>stop\<close> returns with the manager not
  running, \<open>register\<close> returns a conflict list drawn from the chords it was given.
\<close>

theorem router_returns_when_tool_runs:
  assumes "always_runs exec"
  shows "returns (ensure_virtual_mic exec r)
       \<and> returns (ensure_local_monitor exec r)
       \<and> returns (unload_monitor exec r)
       \<and> returns (set_mic_mute exec muted r)
       \<and> returns (list_input_sources exec r)
       \<and> returns (get_default_source exec r)
       \<and> returns (connect_input_source_to_soundpad exec source_name r)
       \<and> returns (disconnect_input_source_from_soundpad exec r)
       \<and> (\<exists>hk'. start x hk =
             (Inr (xlib_available x \<and> \<not> running hk \<and> \<not> isl (open_display x)
                   \<and> \<not> isl (screen_root x) \<and> thread_start_raises x = None), hk'))
       \<and> (\<exists>hk'. stop x hk = (Inr (), hk') \<and> \<not> running hk')
       \<and> (\<exists>conflicts hk'. register x hk hotkey_actions = (Inr conflicts, hk')
             \<and> set conflicts \<subseteq> snd ` set hotkey_actions)"
  using assms
  by (simp only: ensure_virtual_mic_returns ensure_local_monitor_returns unload_monitor_returns
      set_mic_mute_returns list_input_sources_returns get_default_source_returns connect_returns
      disconnect_returns start_outcome stop_outcome register_conflicts_subset simp_thms)

theorem router_returns_when_tool_runs_witness:
  "always_runs pactl_on_path
   \<and> returns (ensure_virtual_mic pactl_on_path (init_audio_router healthy_server))
   \<and> fst (set_mic_mute pactl_on_path True (init_audio_router healthy_server)) = Inr (True, ''Mic muted'')
   \<and> returns (connect_input_source_to_soundpad pactl_on_path ''mic1'' (init_audio_router stuck_server))
   \<and> fst (start lost_backend (init_hotkey_manager :: nat hotkey_manager)) = Inr False
   \<and> returns (stop lost_backend demo_manager)
   \<and> fst (register lost_backend demo_manager [(0, ''Alt+1''), (1, ''Shift+2'')])
        = Inr [''Alt+1'', ''Shift+2'']"
proof -
  have a: "always_runs pactl_on_path"
    by (auto simp: always_runs_def pactl_on_path_def pactl_def prod_eq_iff split: option.splits)
  have m: "fst (set_mic_mute pactl_on_path True (init_audio_router healthy_server)) = Inr (True, ''Mic muted'')"
    by code_simp
  have s: "fst (start lost_backend (init_hotkey_manager :: nat hotkey_manager)) = Inr False"
    by code_simp
  have t: "returns (stop lost_backend demo_manager)"
    by code_simp
  have g: "fst (register lost_backend demo_manager [(0, ''Alt+1''), (1, ''Shift+2'')])
        = Inr [''Alt+1'', ''Shift+2'']"
    by code_simp
  from router_returns_when_tool_runs [OF a, of "init_audio_router healthy_server" True "''mic1''"
      lost_backend demo_manager "[(0, ''Alt+1''), (1, ''Shift+2'')]"]
    router_returns_when_tool_runs [OF a, of "init_audio_router stuck_server" True "''mic1''"
      lost_backend demo_manager "[(0, ''Alt+1''), (1, ''Shift+2'')]"] a m s t g
  show ?thesis by simp
qed

theorem router_raises_without_pactl:
  "fst (set_mic_mute pactl True (init_audio_router no_pactl_server)) = Inl FileNotFoundError
   \<and> \<not> returns (ensure_virtual_mic pactl (init_audio_router no_pactl_server))
   \<and> \<not> returns (ensure_local_monitor pactl (init_audio_router no_pactl_server))
   \<and> \<not> returns (list_input_sources pactl (init_audio_router no_pactl_server))
   \<and> \<not> returns (get_default_source pactl (init_audio_router no_pactl_server))
   \<and> \<not> returns (connect_input_source_to_soundpad pactl ''mic1'' (init_audio_router no_pactl_server))
   \<and> \<not> returns (disconnect_input_source_from_soundpad pactl (init_audio_router no_pactl_server))"
  by code_simp

subsection \<open>Reading the module list of the reference server\<close>

lemma CR_linebreak: "is_linebreak (CHR 0x0D)"
  by (simp add: is_linebreak_def)

lemma splitlines_from_plain:
  "xs \<noteq> [] \<Longrightarrow> \<not> is_linebreak c \<Longrightarrow> splitlines_from cur (c # xs) = splitlines_from (cur @ [c]) xs"
  using CR_linebreak by (cases xs) auto

lemma NL_linebreak: "is_linebreak NL" "NL \<noteq> CHR 0x0D"
  by (simp_all add: is_linebreak_def NL_def)

lemma splitlines_from_NL: "splitlines_from cur (NL # xs) = cur # splitlines_from [] xs"
  by (cases xs) (simp_all add: NL_linebreak)

lemma splitlines_from_line:
  "list_all (\<lambda>c. \<not> is_linebreak c) l \<Longrightarrow>
     splitlines_from cur (l @ NL # rest) = (cur @ l) # splitlines_from [] rest"
proof (induction l arbitrary: cur)
  case Nil
  then show ?case by (simp add: splitlines_from_NL)
next
  case (Cons c l)
  then show ?case by (simp add: splitlines_from_plain)
qed

lemma splitlines_lines:
  "list_all (list_all (\<lambda>c. \<not> is_linebreak c)) ls \<Longrightarrow>
     splitlines (concat (map (\<lambda>l. l @ [NL]) ls)) = ls"
proof (induction ls)
  case Nil
  then show ?case by (simp add: splitlines_def)
next
  case (Cons l ls)
  then show ?case
    using splitlines_from_line [of l "[]" "concat (map (\<lambda>l. l @ [NL]) ls)"]
    by (simp add: splitlines_def)
qed

lemma split_on_three:
  assumes "sep \<notin> set a" "sep \<notin> set b" "sep \<notin> set c"
  shows "split_on sep (a @ [sep] @ b @ [sep] @ c @ [sep]) = [a, b, c, []]"
proof -
  have "split_on sep (a @ sep # (b @ sep # (c @ sep # []))) 
      = split_on sep a @ split_on sep b @ split_on sep c @ split_on sep []"
    by (simp only: split_on_append)
  with assms show ?thesis by (simp add: split_on_no_sep)
qed

lemma digit_value_digit_char: "d < 10 \<Longrightarrow> digit_value (digit_char d) = d"
  by (simp add: digit_value_def digit_char_def)

lemma digit_char_clean: "d < 10 \<Longrightarrow> digit_char d \<noteq> TAB \<and> \<not> is_linebreak (digit_char d)"
proof -
  assume d: "d < 10"
  then have o: "(of_char (digit_char d) :: nat) = 48 + d" by (simp add: digit_char_def)
  have "(of_char TAB :: nat) = 9" by (simp add: TAB_def)
  with o have "digit_char d \<noteq> TAB" by auto
  moreover from o d have "\<not> is_linebreak (digit_char d)" by (simp add: is_linebreak_def)
  ultimately show ?thesis by simp
qed

lemma show_nat_nonempty: "show_nat n \<noteq> []"
  by (subst show_nat.simps) simp

lemma show_nat_clean: "clean (show_nat n)"
proof (induction n rule: show_nat.induct)
  case (1 n)
  show ?case
  proof (cases "n < 10")
    case True
    then show ?thesis by (subst show_nat.simps) (simp add: clean_def digit_char_clean)
  next
    case False
    with 1 have "clean (show_nat (n div 10))" by simp
    moreover have "n mod 10 < 10" by simp
    ultimately show ?thesis using False
      by (subst show_nat.simps) (simp add: clean_def digit_char_clean)
  qed
qed

lemma read_nat_snoc: "read_nat (s @ [c]) = 10 * read_nat s + digit_value c"
  by (simp add: read_nat_def)

lemma read_show_nat: "read_nat (show_nat n) = n"
proof (induction n rule: show_nat.induct)
  case (1 n)
  show ?case
  proof (cases "n < 10")
    case True
    then show ?thesis by (subst show_nat.simps) (simp add: read_nat_def digit_value_digit_char)
  next
    case False
    with 1 have "read_nat (show_nat (n div 10)) = n div 10" by simp
    then show ?thesis using False
      by (subst show_nat.simps) (simp add: read_nat_snoc digit_value_digit_char)
  qed
qed

lemma show_nat_inj: "show_nat m = show_nat n \<longleftrightarrow> m = n"
  by (metis read_show_nat)

lemma clean_no_TAB: "clean s \<Longrightarrow> TAB \<notin> set s"
  by (auto simp: clean_def list_all_iff)

lemma clean_no_linebreak: "clean s \<Longrightarrow> list_all (\<lambda>c. \<not> is_linebreak c) s"
  by (auto simp: clean_def list_all_iff)

lemma TAB_no_linebreak: "\<not> is_linebreak TAB"
  by (simp add: is_linebreak_def TAB_def)

lemma line_of_no_linebreak:
  "clean_module m \<Longrightarrow> list_all (\<lambda>c. \<not> is_linebreak c) (line_of m)"
  using show_nat_clean [of "fst m"]
  by (simp add: line_of_def clean_module_def clean_no_linebreak TAB_no_linebreak)

lemma split_line_of:
  "clean_module m \<Longrightarrow> split_on TAB (line_of m) = [show_nat (fst m), fst (snd m), snd (snd m), []]"
  unfolding line_of_def
  by (rule split_on_three) (simp_all add: clean_no_TAB show_nat_clean clean_module_def)

lemma listing_lines:
  assumes "list_all clean_module ms"
  shows "splitlines (concat (map module_line ms)) = map line_of ms"
proof -
  have "concat (map module_line ms) = concat (map (\<lambda>l. l @ [NL]) (map line_of ms))"
    by (simp add: module_line_def [abs_def] line_of_def comp_def)
  moreover have "list_all (list_all (\<lambda>c. \<not> is_linebreak c)) (map line_of ms)"
    using assms line_of_no_linebreak by (auto simp: list_all_iff)
  ultimately show ?thesis by (simp only: splitlines_lines)
qed

lemma mic_loop_in_lines_Cons:
  "clean_module m \<Longrightarrow>
     mic_loop_in_lines (line_of m # rest)
       = (if is_mic_loop m then Some (show_nat (fst m)) else mic_loop_in_lines rest)"
  by (simp add: split_line_of is_mic_loop_def SINK_NAME_def Let_def)

lemma mic_loop_in_listing:
  "list_all clean_module ms \<Longrightarrow>
     mic_loop_in_lines (map line_of ms) = map_option (\<lambda>m. show_nat (fst m)) (find is_mic_loop ms)"
  by (induction ms) (simp_all add: mic_loop_in_lines_Cons del: mic_loop_in_lines.simps(2))



subsection \<open>The router on the reference server\<close>

lemma loop_args_join: "join '' '' (drop 3 (mic_loop_cmd c)) = loop_args c"
  by (simp add: mic_loop_cmd_def loop_args_def SINK_NAME_def)

lemma pactl_list:
  assumes "pactl_present s" and "listing_ok s"
  shows "pactl s list_modules_cmd
           = Inr (ok (concat (map module_line (modules s))), s\<lparr>ticks := Suc (ticks s)\<rparr>)"
  using assms by (simp add: pactl_def listing_ok_def pactl_command_def list_modules_cmd_def)

lemma pactl_absent: "\<not> pactl_present s \<Longrightarrow> pactl s cmd = Inl FileNotFoundError"
  by (simp add: pactl_def)

lemma find_mic_loop_on_server:
  assumes "pactl_present (env r)" and "listing_ok (env r)" and "list_all clean_module (modules (env r))"
  shows "find_mic_loop_module pactl r
           = (Inr (map_option (\<lambda>m. show_nat (fst m)) (find is_mic_loop (modules (env r)))),
              r\<lparr>env := (env r)\<lparr>ticks := Suc (ticks (env r))\<rparr>,
                issued := issued r @ [list_modules_cmd]\<rparr>)"
  using assms
  by (simp add: find_mic_loop_module_def run_def pactl_list ok_def listing_lines mic_loop_in_listing)


lemma pactl_unload:
  assumes "pactl_present s"
  shows "pactl s (unload_cmd i) =
     (case fault s (unload_cmd i) (ticks s) of
        Some (n, out, err) \<Rightarrow> Inr (failed n out err, s\<lparr>ticks := Suc (ticks s)\<rparr>)
      | None \<Rightarrow>
          if i \<in> set (map (show_nat \<circ> fst) (modules s))
          then Inr (ok [], s\<lparr>ticks := Suc (ticks s),
                             modules := filter (\<lambda>m. show_nat (fst m) \<noteq> i) (modules s)\<rparr>)
          else Inr (failed 0 [] (''Failure: No such entity'' @ [NL]), s\<lparr>ticks := Suc (ticks s)\<rparr>))"
  using assms
  by (simp add: pactl_def pactl_command_def unload_cmd_def split: option.splits)

lemma pactl_load_loop:
  assumes "pactl_present s"
  shows "pactl s (mic_loop_cmd c) =
     (case fault s (mic_loop_cmd c) (ticks s) of
        Some (n, out, err) \<Rightarrow> Inr (failed n out err, s\<lparr>ticks := Suc (ticks s)\<rparr>)
      | None \<Rightarrow>
          Inr (ok (show_nat (next_index s) @ [NL]),
               s\<lparr>ticks := Suc (ticks s),
                 modules := modules s @ [(next_index s, ''module-loopback'', loop_args c)],
                 next_index := Suc (next_index s)\<rparr>))"
  using assms loop_args_join [of c]
  by (simp add: pactl_def pactl_command_def split: option.splits)
     (simp add: mic_loop_cmd_def)

lemma failed_returncode: "returncode (failed n out err) \<noteq> 0"
  by (simp add: failed_def)

lemma ok_returncode: "returncode (ok out) = 0"
  by (simp add: ok_def)

lemma load_mic_loop_success:
  assumes "pactl_present (env r)" and "load_mic_loop pactl c r = (Inr (True, msg), r')"
  shows "modules (env r') = modules (env r) @ [(next_index (env r), ''module-loopback'', loop_args c)]
       \<and> fault (env r') = fault (env r)
       \<and> issued r' = issued r @ [mic_loop_cmd c]"
proof (cases "fault (env r) (mic_loop_cmd c) (ticks (env r))")
  case None
  with assms show ?thesis
    by (auto simp: load_mic_loop_def run_def pactl_load_loop ok_returncode)
next
  case (Some f)
  obtain n out err where "f = (n, out, err)" by (cases f)
  with Some assms show ?thesis
    by (simp add: load_mic_loop_def run_def pactl_load_loop failed_returncode)
qed

lemma connect_present:
  assumes "connect_input_source_to_soundpad pactl c r = (Inr v, r')"
  shows "pactl_present (env r)"
proof (rule ccontr)
  assume "\<not> pactl_present (env r)"
  then have "connect_input_source_to_soundpad pactl c r = (Inl FileNotFoundError, r)"
    by (simp add: connect_input_source_to_soundpad_def find_mic_loop_module_def run_def pactl_absent)
  with assms show False by simp
qed

lemma connect_success:
  assumes ok: "listing_ok (env r)" and cl: "list_all clean_module (modules (env r))"
    and res: "connect_input_source_to_soundpad pactl c r = (Inr (True, msg), r')"
  shows "modules (env r') =
           (case find is_mic_loop (modules (env r)) of
              None \<Rightarrow> modules (env r)
            | Some m \<Rightarrow> filter (\<lambda>m'. show_nat (fst m') \<noteq> show_nat (fst m)) (modules (env r)))
           @ [(next_index (env r), ''module-loopback'', loop_args c)]
       \<and> fault (env r') = fault (env r)
       \<and> issued r' = issued r @ list_modules_cmd #
           (case find is_mic_loop (modules (env r)) of
              None \<Rightarrow> [] | Some m \<Rightarrow> [unload_cmd (show_nat (fst m))]) @ [mic_loop_cmd c]"
proof -
  have pr: "pactl_present (env r)" using res by (rule connect_present)
  let ?s1 = "(env r)\<lparr>ticks := Suc (ticks (env r))\<rparr>"
  let ?r1 = "r\<lparr>env := ?s1, issued := issued r @ [list_modules_cmd]\<rparr>"
  note f = find_mic_loop_on_server [OF pr ok cl]
  show ?thesis
  proof (cases "find is_mic_loop (modules (env r))")
    case None
    with res f have "load_mic_loop pactl c ?r1 = (Inr (True, msg), r')"
      by (simp add: connect_input_source_to_soundpad_def truthy_def)
    from load_mic_loop_success [OF _ this] pr None show ?thesis by simp
  next
    case (Some m)
    then have mem: "show_nat (fst m) \<in> set (map (show_nat \<circ> fst) (modules (env r)))"
      by (auto simp: find_Some_iff intro!: image_eqI [where x = "m"])
    have tr: "truthy (Some (show_nat (fst m)))" by (simp add: truthy_def show_nat_nonempty)
    have pr1: "pactl_present (env ?r1)" using pr by simp
    show ?thesis
    proof (cases "fault ?s1 (unload_cmd (show_nat (fst m))) (ticks ?s1)")
      case (Some f')
      obtain n out err where "f' = (n, out, err)" by (cases f')
      with Some res f \<open>find is_mic_loop (modules (env r)) = Some m\<close> tr pr
      have False
        by (simp add: connect_input_source_to_soundpad_def run_def pactl_unload failed_returncode)
      then show ?thesis ..
    next
      case None
      let ?s2 = "?s1\<lparr>ticks := Suc (ticks ?s1),
                    modules := filter (\<lambda>m'. show_nat (fst m') \<noteq> show_nat (fst m)) (modules ?s1)\<rparr>"
      let ?r2 = "?r1\<lparr>env := ?s2, issued := issued ?r1 @ [unload_cmd (show_nat (fst m))]\<rparr>"
      from None mem pr have u: "run pactl (unload_cmd (show_nat (fst m))) ?r1 = (Inr (ok []), ?r2)"
        by (simp add: run_def pactl_unload)
      with res f \<open>find is_mic_loop (modules (env r)) = Some m\<close> tr
      have "load_mic_loop pactl c (?r2\<lparr>mic_loop_module_id := None\<rparr>) = (Inr (True, msg), r')"
        by (simp add: connect_input_source_to_soundpad_def ok_returncode)
      from load_mic_loop_success [OF _ this] pr \<open>find is_mic_loop (modules (env r)) = Some m\<close>
      show ?thesis by simp
    qed
  qed
qed

lemma is_mic_loop_index: "is_mic_loop (i, n, a) = is_mic_loop (j, n, a)"
  by (simp add: is_mic_loop_def)

lemma loop_args_has_sink: "sublist ''sink=soundpad_sink'' (loop_args c)"
proof -
  have "loop_args c = (''source='' @ c @ '' '') @ ''sink=soundpad_sink'' @ '' latency_msec=20''"
    by (simp add: loop_args_def)
  then show ?thesis by (simp only: sublist_appendI)
qed

lemma is_mic_loop_new:
  "is_mic_loop (i, ''module-loopback'', loop_args c)
     \<longleftrightarrow> \<not> sublist ''source=soundpad_sink.monitor'' (loop_args c)"
  by (simp add: is_mic_loop_def loop_args_has_sink)

lemma clean_append: "clean (a @ b) \<longleftrightarrow> clean a \<and> clean b"
  by (simp add: clean_def)

lemma clean_loop_args: "clean c \<Longrightarrow> clean (loop_args c)"
proof -
  have "clean ''source=''" "clean '' sink=soundpad_sink latency_msec=20''" by code_simp+
  moreover have "clean (''source='' @ c @ '' sink=soundpad_sink latency_msec=20'')
      \<longleftrightarrow> clean ''source='' \<and> clean c \<and> clean '' sink=soundpad_sink latency_msec=20''"
    by (simp only: clean_append)
  ultimately show "clean c \<Longrightarrow> clean (loop_args c)" by (simp only: loop_args_def simp_thms)
qed

lemma clean_loopback_module: "clean c \<Longrightarrow> clean_module (i, ''module-loopback'', loop_args c)"
proof -
  have "clean ''module-loopback''" by code_simp
  then show "clean c \<Longrightarrow> clean_module (i, ''module-loopback'', loop_args c)"
    by (simp add: clean_module_def clean_loop_args)
qed

lemma filter_after_find:
  assumes "length (filter P ms) \<le> 1" and "find P ms = Some m"
  shows "filter P ms = [m]"
proof -
  from assms(2) obtain i where i: "i < length ms" "P (ms ! i)" "m = ms ! i" "\<forall>j<i. \<not> P (ms ! j)"
    by (auto simp: find_Some_iff)
  then have "m \<in> set (filter P ms)" by auto
  moreover from assms(1) have "filter P ms = [] \<or> (\<exists>x. filter P ms = [x])"
    by (cases "filter P ms") (auto simp: le_Suc_eq)
  ultimately show ?thesis
  proof (elim disjE exE)
    assume "m \<in> set (filter P ms)" "filter P ms = []"
    then show ?thesis by (simp only: set_simps empty_iff)
  next
    fix x assume "m \<in> set (filter P ms)" "filter P ms = [x]"
    then show ?thesis by (simp only: set_simps insert_iff empty_iff simp_thms)
  qed
qed

lemma mic_loops_after_removal:
  assumes "length (filter is_mic_loop ms) \<le> 1"
  shows "filter is_mic_loop
           (case find is_mic_loop ms of
              None \<Rightarrow> ms
            | Some m \<Rightarrow> filter (\<lambda>m'. show_nat (fst m') \<noteq> show_nat (fst m)) ms) = []"
proof (cases "find is_mic_loop ms")
  case None
  then have "filter is_mic_loop ms = []" by (auto simp: find_None_iff filter_empty_conv)
  with None show ?thesis by simp
next
  case (Some m)
  from filter_after_find [OF assms Some] have one: "filter is_mic_loop ms = [m]" .
  have "filter is_mic_loop (filter (\<lambda>m'. show_nat (fst m') \<noteq> show_nat (fst m)) ms)
      = filter (\<lambda>m'. show_nat (fst m') \<noteq> show_nat (fst m)) (filter is_mic_loop ms)"
    by (simp add: conj_commute)
  also have "\<dots> = []" by (simp add: one)
  finally show ?thesis by (simp add: Some)
qed

lemma unloads_of_find:
  assumes "length (filter is_mic_loop ms) \<le> 1"
  shows "(case find is_mic_loop ms of None \<Rightarrow> [] | Some m \<Rightarrow> [unload_cmd (show_nat (fst m))])
           = map (\<lambda>m. unload_cmd (show_nat (fst m))) (filter is_mic_loop ms)"
proof (cases "find is_mic_loop ms")
  case None
  then have "filter is_mic_loop ms = []" by (auto simp: find_None_iff filter_empty_conv)
  with None show ?thesis by simp
next
  case (Some m)
  from filter_after_find [OF assms Some] Some show ?thesis by simp
qed

lemma connect_mic_loops:
  assumes ok: "listing_ok (env r)" and cl: "list_all clean_module (modules (env r))"
    and one: "length (mic_loops (env r)) \<le> 1" and c: "clean c"
    and res: "connect_input_source_to_soundpad pactl c r = (Inr (True, msg), r')"
  shows "mic_loops (env r') =
           (if sublist ''source=soundpad_sink.monitor'' (loop_args c) then []
            else [(next_index (env r), ''module-loopback'', loop_args c)])"
    and "listing_ok (env r')"
    and "list_all clean_module (modules (env r'))"
    and "issued r' = issued r @ list_modules_cmd #
           map (\<lambda>m. unload_cmd (show_nat (fst m))) (mic_loops (env r)) @ [mic_loop_cmd c]"
proof -
  note s = connect_success [OF ok cl res]
  from one have one': "length (filter is_mic_loop (modules (env r))) \<le> 1"
    by (simp add: mic_loops_def)
  show "mic_loops (env r') =
           (if sublist ''source=soundpad_sink.monitor'' (loop_args c) then []
            else [(next_index (env r), ''module-loopback'', loop_args c)])"
    using s mic_loops_after_removal [OF one']
    by (simp add: mic_loops_def is_mic_loop_new)
  show "listing_ok (env r')" using s ok by (simp add: listing_ok_def)
  show "list_all clean_module (modules (env r'))"
    using s cl clean_loopback_module [OF c]
    by (auto simp: list_all_iff split: option.splits)
  show "issued r' = issued r @ list_modules_cmd #
           map (\<lambda>m. unload_cmd (show_nat (fst m))) (mic_loops (env r)) @ [mic_loop_cmd c]"
    using s unloads_of_find [OF one'] by (simp add: mic_loops_def)
qed

text \<open>
  C1, as the code has it. On the reference server, started with clean module names and
  arguments (no tab, no line boundary) and no mic-passthrough loopback, when the module
  listing does not fail, the three source names are clean, and the calls
  \<open>connect_input_source_to_soundpad\<close> for A, B and C all return success: if the arguments
  of the loopback loaded for C do not contain \<open>source=soundpad_sink.monitor\<close>, then exactly
  one mic-passthrough loopback is loaded afterwards and its arguments are
  \<open>source=C sink=soundpad_sink latency_msec=20\<close>. Each of the three calls runs the module
  listing, then an unload for every mic-passthrough loopback loaded before the call (at
  most one), then the load of the new loopback.
\<close>

theorem connect_thrice_one_mic_loop:
  assumes "listing_ok (env r0)" and "list_all clean_module (modules (env r0))"
    and "mic_loops (env r0) = []"
    and "clean a" and "clean b" and "clean c"
    and "\<not> sublist ''source=soundpad_sink.monitor'' (loop_args c)"
    and "connect_input_source_to_soundpad pactl a r0 = (Inr (True, ma), r1)"
    and "connect_input_source_to_soundpad pactl b r1 = (Inr (True, mb), r2)"
    and "connect_input_source_to_soundpad pactl c r2 = (Inr (True, mc), r3)"
  shows "mic_loops (env r3)
           = [(next_index (env r2), ''module-loopback'',
               ''source='' @ c @ '' sink=soundpad_sink latency_msec=20'')]
       \<and> issued r1 = issued r0 @ [list_modules_cmd, mic_loop_cmd a]
       \<and> issued r2 = issued r1 @ list_modules_cmd #
            map (\<lambda>m. unload_cmd (show_nat (fst m))) (mic_loops (env r1)) @ [mic_loop_cmd b]
       \<and> issued r3 = issued r2 @ list_modules_cmd #
            map (\<lambda>m. unload_cmd (show_nat (fst m))) (mic_loops (env r2)) @ [mic_loop_cmd c]
       \<and> length (mic_loops (env r1)) \<le> 1 \<and> length (mic_loops (env r2)) \<le> 1"
proof -
  have z: "length (mic_loops (env r0)) \<le> 1" using assms(3) by simp
  note A = connect_mic_loops [OF assms(1,2) z assms(4,8)]
  have one1: "length (mic_loops (env r1)) \<le> 1" using A(1) by simp
  note B = connect_mic_loops [OF A(2,3) one1 assms(5,9)]
  have one2: "length (mic_loops (env r2)) \<le> 1" using B(1) by simp
  note C = connect_mic_loops [OF B(2,3) one2 assms(6,10)]
  from A(4) assms(3) have ia: "issued r1 = issued r0 @ [list_modules_cmd, mic_loop_cmd a]" by simp
  from C(1) assms(7) have "mic_loops (env r3)
           = [(next_index (env r2), ''module-loopback'',
               ''source='' @ c @ '' sink=soundpad_sink latency_msec=20'')]"
    by (simp add: loop_args_def)
  with ia B(4) C(4) one1 one2 show ?thesis by simp
qed

theorem connect_thrice_one_mic_loop_witness:
  "listing_ok healthy_server \<and> mic_loops healthy_server = []
   \<and> fst (connect_each pactl [''mic1'', ''mic2'', ''mic3''] (init_audio_router healthy_server))
       = [Inr (True, ''Mic source connected: mic1''), Inr (True, ''Mic source connected: mic2''),
          Inr (True, ''Mic source connected: mic3'')]
   \<and> mic_loops (env (snd (connect_each pactl [''mic1'', ''mic2'', ''mic3'']
                             (init_audio_router healthy_server))))
       = [(4, ''module-loopback'', ''source=mic3 sink=soundpad_sink latency_msec=20'')]"
proof -
  define r0 where "r0 = init_audio_router healthy_server"
  define r1 where "r1 = snd (connect_input_source_to_soundpad pactl ''mic1'' r0)"
  define r2 where "r2 = snd (connect_input_source_to_soundpad pactl ''mic2'' r1)"
  define r3 where "r3 = snd (connect_input_source_to_soundpad pactl ''mic3'' r2)"
  have e: "env r0 = healthy_server" by (simp add: r0_def init_audio_router_def)
  have l: "listing_ok healthy_server" by (simp add: listing_ok_def healthy_server_def)
  have m: "mic_loops healthy_server = []" by code_simp
  have h1: "listing_ok (env r0)" by (simp only: e l)
  have "list_all clean_module (modules healthy_server)" by code_simp
  then have h2: "list_all clean_module (modules (env r0))" by (simp only: e)
  have h3: "mic_loops (env r0) = []" by (simp only: e m)
  have h4: "clean ''mic1''" and h5: "clean ''mic2''" and h6: "clean ''mic3''" by code_simp+
  have h7: "\<not> sublist ''source=soundpad_sink.monitor'' (loop_args ''mic3'')" by code_simp
  have "fst (connect_input_source_to_soundpad pactl ''mic1'' r0) = Inr (True, ''Mic source connected: mic1'')"
    unfolding r0_def by code_simp
  then have h8: "connect_input_source_to_soundpad pactl ''mic1'' r0
      = (Inr (True, ''Mic source connected: mic1''), r1)" by (simp add: prod_eq_iff r1_def)
  have "fst (connect_input_source_to_soundpad pactl ''mic2'' r1) = Inr (True, ''Mic source connected: mic2'')"
    unfolding r1_def r0_def by code_simp
  then have h9: "connect_input_source_to_soundpad pactl ''mic2'' r1
      = (Inr (True, ''Mic source connected: mic2''), r2)" by (simp add: prod_eq_iff r2_def)
  have "fst (connect_input_source_to_soundpad pactl ''mic3'' r2) = Inr (True, ''Mic source connected: mic3'')"
    unfolding r2_def r1_def r0_def by code_simp
  then have h10: "connect_input_source_to_soundpad pactl ''mic3'' r2
      = (Inr (True, ''Mic source connected: mic3''), r3)" by (simp add: prod_eq_iff r3_def)
  have n: "next_index (env r2) = 4" unfolding r2_def r1_def r0_def by code_simp
  have all: "connect_each pactl [''mic1'', ''mic2'', ''mic3''] r0
      = ([Inr (True, ''Mic source connected: mic1''), Inr (True, ''Mic source connected: mic2''),
          Inr (True, ''Mic source connected: mic3'')], r3)"
    by (simp add: h8 h9 h10)
  from connect_thrice_one_mic_loop [OF h1 h2 h3 h4 h5 h6 h7 h8 h9 h10]
  have "mic_loops (env r3) = [(4, ''module-loopback'', ''source=mic3 sink=soundpad_sink latency_msec=20'')]"
    by (simp add: n)
  with l m all show ?thesis by (simp add: r0_def)
qed

theorem connect_monitor_not_recognised:
  "fst (connect_each pactl [''mic1'', ''mic2'', ''soundpad_sink.monitor'']
          (init_audio_router healthy_server))
     = [Inr (True, ''Mic source connected: mic1''), Inr (True, ''Mic source connected: mic2''),
        Inr (True, ''Mic source connected: soundpad_sink.monitor'')]
   \<and> mic_loops (env (snd (connect_each pactl [''mic1'', ''mic2'', ''soundpad_sink.monitor'']
                             (init_audio_router healthy_server)))) = []
   \<and> mic_loops healthy_server = []"
  by code_simp

subsection \<open>The virtual microphone\<close>



















subsection \<open>Push-to-talk\<close>

lemma save_settings_keeps:
  "router_calls (snd (save_settings d app)) = router_calls app"
  "ptt_pressed (snd (save_settings d app)) = ptt_pressed app"
  by (simp_all add: save_settings_def split: option.splits)

lemma ensure_selected_source_connected_calls:
  "router_calls (snd (ensure_selected_source_connected exec d app)) =
     router_calls app @ (if strip (selected_input_source app) = [] then []
                         else [Connect (strip (selected_input_source app))])"
  "ptt_pressed (snd (ensure_selected_source_connected exec d app)) = ptt_pressed app"
  by (auto simp: ensure_selected_source_connected_def Let_def save_settings_def
      split: prod.splits sum.splits option.splits)

lemma ptt_press_calls:
  assumes "push_to_talk_enabled app" and "\<not> ptt_pressed app"
  shows "router_calls (snd (ptt_press exec d app)) =
     router_calls app @ (if strip (selected_input_source app) = [] then []
                         else [Connect (strip (selected_input_source app))])"
    and "ptt_pressed (snd (ptt_press exec d app))"
proof -
  let ?app = "app\<lparr>ptt_pressed := True\<rparr>"
  obtain res app' where e: "ensure_selected_source_connected exec d ?app = (res, app')"
    by (cases "ensure_selected_source_connected exec d ?app")
  from ensure_selected_source_connected_calls [of exec d ?app] e
  have c: "router_calls app' = router_calls app @ (if strip (selected_input_source app) = [] then []
                         else [Connect (strip (selected_input_source app))])"
    and p: "ptt_pressed app'" by simp_all
  show "router_calls (snd (ptt_press exec d app)) =
     router_calls app @ (if strip (selected_input_source app) = [] then []
                         else [Connect (strip (selected_input_source app))])"
    using assms c by (auto simp: ptt_press_def e split: sum.splits prod.splits)
  show "ptt_pressed (snd (ptt_press exec d app))"
    using assms p by (auto simp: ptt_press_def e split: sum.splits prod.splits)
qed

lemma ptt_release_calls:
  assumes "ptt_pressed app"
  shows "router_calls (snd (ptt_release exec app)) = router_calls app @ [Disconnect]"
    and "\<not> ptt_pressed (snd (ptt_release exec app))"
  using assms by (auto simp: ptt_release_def Let_def split: sum.splits prod.splits)

text \<open>
  C2, as the code has it: with push-to-talk enabled and the handler idle (\<open>ptt_pressed\<close>
  false), a press followed by a release of the push-to-talk chord calls the router's
  \<open>connect_input_source_to_soundpad\<close> with the stripped selected input source and then its
  \<open>disconnect_input_source_from_soundpad\<close>, in this order and whatever the connect returns
  or raises: the press sets \<open>ptt_pressed\<close> before it connects, and only the release resets
  it. When no input source is selected (the text is empty once stripped) the press calls no
  operation of the router and the release calls the disconnect alone.
\<close>

theorem ptt_press_release_calls:
  assumes "push_to_talk_enabled app" and "\<not> ptt_pressed app"
  shows "router_calls (deliver exec d [Down, Up] app) =
           router_calls app @ (if strip (selected_input_source app) = [] then []
                               else [Connect (strip (selected_input_source app))]) @ [Disconnect]
       \<and> ptt_pressed (deliver exec d [Down] app)
       \<and> \<not> ptt_pressed (deliver exec d [Down, Up] app)"
  using ptt_press_calls [OF assms, of exec d]
    ptt_release_calls [of "snd (ptt_press exec d app)" exec]
  by (simp add: deliver_def on_ptt_event_def)

theorem ptt_press_release_calls_witness:
  "push_to_talk_enabled talk_app \<and> \<not> ptt_pressed talk_app
   \<and> fst (connect_input_source_to_soundpad pactl ''mic1'' (router talk_app))
        = Inr (False, ''Failure: Module initialization failed'')
   \<and> router_calls (deliver pactl plain_desktop [Down, Up] talk_app) = [Connect ''mic1'', Disconnect]
   \<and> ptt_pressed (deliver pactl plain_desktop [Down] talk_app)
   \<and> \<not> ptt_pressed (deliver pactl plain_desktop [Down, Up] talk_app)"
proof -
  have h: "push_to_talk_enabled talk_app" "\<not> ptt_pressed talk_app" by code_simp+
  have s: "strip (selected_input_source talk_app) = ''mic1''" by code_simp
  have f: "fst (connect_input_source_to_soundpad pactl ''mic1'' (router talk_app))
        = Inr (False, ''Failure: Module initialization failed'')" by code_simp
  have c: "router_calls talk_app = []" by code_simp
  from ptt_press_release_calls [OF h, of pactl plain_desktop] h f
  show ?thesis by (simp add: s c)
qed

theorem ptt_disconnect_alone:
  "push_to_talk_enabled idle_app \<and> \<not> ptt_pressed idle_app
   \<and> router_calls (deliver pactl plain_desktop [Down, Up] idle_app) = [Disconnect]"
  by code_simp

subsection \<open>Editing the hotkey of a clip\<close>

lemma length_clear_duplicate [simp]:
  "length (clear_duplicate selected typed idx cs) = length cs"
  by (induction cs arbitrary: idx) simp_all



lemma lower_Nil_iff [simp]: "lower s = [] \<longleftrightarrow> s = []"
  by (simp add: lower_def)

lemma save_clips_clips [simp]: "clips (snd (save_clips d app)) = clips app"
  by (simp add: save_clips_def split: option.splits)

lemma bind_clips_clips [simp]: "clips (snd (bind_clips d ncs app)) = clips app"
  by (induction d ncs app rule: bind_clips.induct) (simp_all add: Let_def split: option.splits)

lemma register_global_hotkeys_clips [simp]:
  "clips (snd (register_global_hotkeys d app)) = clips app"
  by (simp add: register_global_hotkeys_def Let_def split: prod.splits sum.splits)

lemma bind_hotkeys_clips [simp]: "clips (snd (bind_hotkeys d app)) = clips app"
proof -
  let ?app = "app\<lparr>tk_calls := tk_calls app @ map UnbindAll (bound_hotkeys app), bound_hotkeys := []\<rparr>"
  obtain res app' where b: "bind_clips d (enumerate 0 (clips ?app)) ?app = (res, app')"
    by (cases "bind_clips d (enumerate 0 (clips ?app)) ?app")
  have "clips app' = clips (snd (bind_clips d (enumerate 0 (clips ?app)) ?app))"
    by (simp only: b snd_conv)
  then have "clips app' = clips app" by simp
  then show ?thesis
    using b by (cases res) (simp_all add: bind_hotkeys_def Let_def)
qed










end
